theory Spec2Isabelle
  imports Complex_Main "HOL-Library.Sublist" "HOL-Library.List_Lexorder" "HOL-Library.Multiset"
    "HOL-Library.AList"
begin

section \<open>Strings, errors and the Python runtime\<close>

text \<open>
  A Python \<open>str\<close> is a sequence of Unicode code points and \<open>len\<close> counts code points, so
  a title is a list of code points (the integers \<open>ord\<close> gives). Python's integers are unbounded:
  they are \<open>int\<close>.
\<close>

type_synonym uchar = int
type_synonym ustr = "int list"

text \<open>An ASCII literal as a list of code points.\<close>

definition ascii :: "string \<Rightarrow> ustr" where
  "ascii s = map of_char s"

datatype py_error = ValueError

text \<open>
  What the code asks the Python runtime for: the properties of a character in the
  runtime's Unicode tables, and the interpreter's limit on the conversion of decimal
  strings. They belong to the runtime, not to the plugin, so every function that needs
  one takes them as its first argument:
  \<^item> \<open>decimal c\<close>: the value of a decimal digit (what the regular expression \<open>\d\<close> matches
    and \<open>int\<close> converts), \<open>None\<close> for any other character;
  \<^item> \<open>isdigit c\<close>: \<open>str.isdigit\<close> on one character;
  \<^item> \<open>isspace c\<close>: white space (\<open>\s\<close>, \<open>str.strip\<close>);
  \<^item> \<open>isalnum c\<close>: alphanumeric (\<open>\w\<close> is this or an underscore);
  \<^item> \<open>toupper c\<close>: \<open>str.upper\<close> on one character (it can give several);
  \<^item> \<open>ieq l c\<close>: under \<open>re.IGNORECASE\<close>, the input character \<open>c\<close> matches the
    pattern's literal \<open>l\<close>;
  \<^item> \<open>max_str_digits\<close>: \<open>sys.get_int_max_str_digits()\<close>, the number of digits beyond which
    \<open>int\<close> refuses a decimal string; 0 when the interpreter has no limit.
\<close>

record runtime =
  decimal :: "uchar \<Rightarrow> nat option"
  isdigit :: "uchar \<Rightarrow> bool"
  isspace :: "uchar \<Rightarrow> bool"
  isalnum :: "uchar \<Rightarrow> bool"
  toupper :: "uchar \<Rightarrow> ustr"
  ieq :: "uchar \<Rightarrow> uchar \<Rightarrow> bool"
  max_str_digits :: int

text \<open>
  The tables on the ASCII letters and digits, on the dotted and dotless i (which
  \<open>re.IGNORECASE\<close> identifies with \<open>i\<close>), on the full-width digits and on the white space
  of Unicode, with every CJK ideograph a caseless letter, and the default limit of 4300
  digits. Concrete titles below use ASCII characters and CJK ideographs only.
\<close>

definition is_ascii_upper :: "uchar \<Rightarrow> bool" where
  "is_ascii_upper c = (65 \<le> c \<and> c \<le> 90)"

definition is_ascii_lower :: "uchar \<Rightarrow> bool" where
  "is_ascii_lower c = (97 \<le> c \<and> c \<le> 122)"

definition is_cjk :: "uchar \<Rightarrow> bool" where
  "is_cjk c = (0x4E00 \<le> c \<and> c \<le> 0x9FFF)"

definition std_decimal :: "uchar \<Rightarrow> nat option" where
  "std_decimal c =
     (if 48 \<le> c \<and> c \<le> 57 then Some (nat (c - 48))
      else if 0xFF10 \<le> c \<and> c \<le> 0xFF19 then Some (nat (c - 0xFF10))
      else None)"

definition std_isspace :: "uchar \<Rightarrow> bool" where
  "std_isspace c =
     ((9 \<le> c \<and> c \<le> 13) \<or> (28 \<le> c \<and> c \<le> 32) \<or> c = 0x85 \<or> c = 0xA0 \<or> c = 0x1680 \<or>
      (0x2000 \<le> c \<and> c \<le> 0x200A) \<or> c = 0x2028 \<or> c = 0x2029 \<or> c = 0x202F \<or> c = 0x205F \<or>
      c = 0x3000)"

definition std_toupper :: "uchar \<Rightarrow> ustr" where
  "std_toupper c = (if is_ascii_lower c then [c - 32] else if c = 0x131 then [73] else [c])"

definition std_ieq :: "uchar \<Rightarrow> uchar \<Rightarrow> bool" where
  "std_ieq l c =
     (let lo = (\<lambda>x. if is_ascii_upper x then x + 32 else if x = 0x130 then 105 else x)
      in lo c = lo l \<or> (lo l = 105 \<and> c = 0x131))"

definition std_isdigit :: "uchar \<Rightarrow> bool" where
  "std_isdigit c = (std_decimal c \<noteq> None)"

definition std_isalnum :: "uchar \<Rightarrow> bool" where
  "std_isalnum c = (is_ascii_upper c \<or> is_ascii_lower c \<or> is_cjk c \<or> std_isdigit c)"

definition std :: runtime where
  "std = \<lparr> decimal = std_decimal,
           isdigit = std_isdigit,
           isspace = std_isspace,
           isalnum = std_isalnum,
           toupper = std_toupper,
           ieq = std_ieq,
           max_str_digits = 4300 \<rparr>"

subsection \<open>String methods\<close>

definition str_upper :: "runtime \<Rightarrow> ustr \<Rightarrow> ustr" where
  "str_upper U s = concat (map (toupper U) s)"

text \<open>\<open>s.rstrip(chars)\<close> and \<open>s.rstrip()\<close>, \<open>s.strip()\<close>.\<close>

definition rstrip_where :: "(uchar \<Rightarrow> bool) \<Rightarrow> ustr \<Rightarrow> ustr" where
  "rstrip_where P s = rev (dropWhile P (rev s))"

definition rstrip :: "runtime \<Rightarrow> ustr \<Rightarrow> ustr" where
  "rstrip U s = rstrip_where (isspace U) s"

definition strip :: "runtime \<Rightarrow> ustr \<Rightarrow> ustr" where
  "strip U s = rstrip_where (isspace U) (dropWhile (isspace U) s)"

text \<open>\<open>s.isdigit()\<close>: at least one character, and all of them digits.\<close>

definition str_isdigit :: "runtime \<Rightarrow> ustr \<Rightarrow> bool" where
  "str_isdigit U s = (s \<noteq> [] \<and> list_all (isdigit U) s)"

text \<open>
  \<open>int(s)\<close> on a string for which \<open>isdigit\<close> holds: the decimal value, or
  \<open>ValueError\<close> when a character is a digit that is not a decimal digit, or when the
  string has more digits than the interpreter's limit.
\<close>

fun int_loop :: "runtime \<Rightarrow> ustr \<Rightarrow> int \<Rightarrow> py_error + int" where
  "int_loop U [] acc = Inr acc"
| "int_loop U (c # cs) acc =
     (case decimal U c of
        None \<Rightarrow> Inl ValueError
      | Some d \<Rightarrow> int_loop U cs (acc * 10 + int d))"

definition within_limit :: "runtime \<Rightarrow> ustr \<Rightarrow> bool" where
  "within_limit U s = (max_str_digits U = 0 \<or> int (length s) \<le> max_str_digits U)"

definition py_int :: "runtime \<Rightarrow> ustr \<Rightarrow> py_error + int" where
  "py_int U s = (if within_limit U s then int_loop U s 0 else Inl ValueError)"

text \<open>\<open>str(n)\<close> for a natural number.\<close>

fun str_nat :: "nat \<Rightarrow> ustr" where
  "str_nat n = (if n < 10 then [48 + int n] else str_nat (n div 10) @ [48 + int (n mod 10)])"

declare str_nat.simps [simp del]

section \<open>Numeral converter\<close>

text \<open>
  \<open>CHINESE_NUMBERS\<close>, in the order of the source. The keys are strings: one character
  each, except the ten two-character entries for 11 to 20.
\<close>

definition CHINESE_NUMBERS :: "(ustr \<times> int) list" where
  "CHINESE_NUMBERS =
    [([0x96F6], 0), ([0x3007], 0), ([0x4E00], 1), ([0x58F9], 1), ([0x4E8C], 2), ([0x8D30], 2),
     ([0x5169], 2), ([0x4E24], 2),
     ([0x4E09], 3), ([0x53C1], 3), ([0x56DB], 4), ([0x8086], 4), ([0x4E94], 5), ([0x4F0D], 5),
     ([0x516D], 6), ([0x9646], 6), ([0x4E03], 7), ([0x67D2], 7), ([0x516B], 8), ([0x634C], 8),
     ([0x4E5D], 9), ([0x7396], 9), ([0x5341], 10), ([0x62FE], 10),
     ([0x5341, 0x4E00], 11), ([0x5341, 0x4E8C], 12), ([0x5341, 0x4E09], 13),
     ([0x5341, 0x56DB], 14), ([0x5341, 0x4E94], 15),
     ([0x5341, 0x516D], 16), ([0x5341, 0x4E03], 17), ([0x5341, 0x516B], 18),
     ([0x5341, 0x4E5D], 19),
     ([0x4E8C, 0x5341], 20), ([0x5EFF], 20), ([0x5345], 30), ([0x534C], 40),
     ([0x767E], 100), ([0x4F70], 100), ([0x5343], 1000), ([0x4EDF], 1000),
     ([0x4E07], 10000), ([0x842C], 10000)]"

text \<open>
  The loop of \<open>chinese_to_int\<close> over the characters, on the state
  \<open>(result, temp, last_unit)\<close>; a character that is not a key ends the loop (\<open>break\<close>).
\<close>

fun chinese_loop :: "ustr \<Rightarrow> int \<times> int \<times> int \<Rightarrow> int \<times> int \<times> int" where
  "chinese_loop [] st = st"
| "chinese_loop (c # cs) (result, temp, last_unit) =
     (case map_of CHINESE_NUMBERS [c] of
        None \<Rightarrow> (result, temp, last_unit)
      | Some num \<Rightarrow>
          if num \<ge> 10
          then chinese_loop cs (result + (if temp = 0 then 1 else temp) * num, 0, num)
          else chinese_loop cs (result, num, last_unit))"

definition chinese_to_int :: "ustr \<Rightarrow> int" where
  "chinese_to_int chinese_num =
     (if chinese_num = [] then 0
      else case chinese_loop chinese_num (0, 0, 1) of
        (result, temp, last_unit) \<Rightarrow>
          (case map_of CHINESE_NUMBERS chinese_num of
             Some v \<Rightarrow> v
           | None \<Rightarrow> result + temp))"

definition roman_dict :: "(uchar \<times> int) list" where
  "roman_dict = [(73, 1), (86, 5), (88, 10), (76, 50), (67, 100), (68, 500), (77, 1000)]"

text \<open>The loop of \<open>roman_to_int\<close> on \<open>(result, prev_value)\<close>; \<open>dict.get(char, 0)\<close>.\<close>

fun roman_loop :: "ustr \<Rightarrow> int \<times> int \<Rightarrow> int \<times> int" where
  "roman_loop [] st = st"
| "roman_loop (c # cs) (result, prev_value) =
     (let v = (case map_of roman_dict c of None \<Rightarrow> 0 | Some v \<Rightarrow> v)
      in roman_loop cs (if v < prev_value then result - v else result + v, v))"

definition roman_to_int :: "runtime \<Rightarrow> ustr \<Rightarrow> int" where
  "roman_to_int U roman = fst (roman_loop (rev (str_upper U roman)) (0, 0))"

definition chinese_digits :: "ustr list" where
  "chinese_digits = [[0x96F6], [0x4E00], [0x4E8C], [0x4E09], [0x56DB], [0x4E94], [0x516D],
     [0x4E03], [0x516B], [0x4E5D]]"

text \<open>
  \<open>int_to_chinese\<close>. The indices into \<open>chinese_digits\<close> are between 0 and 9 in every
  branch that reads the list.
\<close>

definition int_to_chinese :: "int \<Rightarrow> ustr" where
  "int_to_chinese num =
     (if num \<le> 0 then [0x96F6]
      else if num < 10 then chinese_digits ! nat num
      else if num < 20 then
        (if num = 10 then [0x5341] else [0x5341] @ chinese_digits ! nat (num mod 10))
      else if num < 100 then
        (let tens = num div 10; units = num mod 10
         in if units = 0 then chinese_digits ! nat tens @ [0x5341]
            else chinese_digits ! nat tens @ [0x5341] @ chinese_digits ! nat units)
      else str_nat (nat num))"

text \<open>
  \<open>re.match(r'^[IVXLCDM]+$', s)\<close> and the text it matched: a non-empty run of the seven
  letters, up to the end of the string or to a line feed that ends the string.
\<close>

definition is_roman :: "uchar \<Rightarrow> bool" where
  "is_roman c = (c \<in> set (map fst roman_dict))"

definition roman_match :: "ustr \<Rightarrow> ustr option" where
  "roman_match s =
     (let r = takeWhile is_roman s; rest = dropWhile is_roman s
      in if r \<noteq> [] \<and> (rest = [] \<or> rest = [10]) then Some r else None)"

text \<open>
  \<open>parse_volume_number\<close>. \<open>roman_to_int\<close> and \<open>chinese_to_int\<close> have no operation that
  raises (they iterate over a string, look keys up with a default or after a membership
  test, and add), so the \<open>except\<close> branches around them are not taken and the
  \<open>return None\<close> that ends the source function is reached by no input; \<open>int\<close> is called outside
  any \<open>try\<close>, and its \<open>ValueError\<close> leaves the function.
\<close>

definition parse_volume_number :: "runtime \<Rightarrow> ustr \<Rightarrow> py_error + int option" where
  "parse_volume_number U volume_str =
     (if volume_str = [] then Inr None
      else let v = strip U volume_str in
        if str_isdigit U v then map_sum id Some (py_int U v)
        else case roman_match (str_upper U v) of
          Some r \<Rightarrow> Inr (Some (roman_to_int U r))
        | None \<Rightarrow> Inr (Some (chinese_to_int v)))"

section \<open>Regular expressions\<close>

text \<open>
  Python's \<open>re\<close> is a backtracking matcher. A piece of a pattern is modelled by the list
  of positions at which it can end when started at position \<open>i\<close> of the string \<open>s\<close>, in
  the order in which the matcher tries them: a greedy repetition tries the longest run
  first, a lazy one the shortest. The patterns of the plugin all have the shape
  \<open>before (group 1) after\<close>; a match is the first combination, in that order, for which
  all three pieces succeed, and \<open>re.search\<close> takes the leftmost start position that has
  one.
\<close>

type_synonym matcher = "ustr \<Rightarrow> nat \<Rightarrow> nat list"

definition m_empty :: matcher where
  "m_empty s i = [i]"

text \<open>One character of a class: \<open>[...]\<close> or a literal.\<close>

definition m_set :: "(uchar \<Rightarrow> bool) \<Rightarrow> matcher" where
  "m_set P s i = (if i < length s \<and> P (s ! i) then [Suc i] else [])"

text \<open>\<open>[...]?\<close>, greedy.\<close>

definition m_opt :: "(uchar \<Rightarrow> bool) \<Rightarrow> matcher" where
  "m_opt P s i = m_set P s i @ [i]"

text \<open>\<open>[...]+\<close>, greedy: the whole run first, then one character less, down to one.\<close>

definition m_plus :: "(uchar \<Rightarrow> bool) \<Rightarrow> matcher" where
  "m_plus P s i = map (\<lambda>k. i + k) (rev [1..<Suc (length (takeWhile P (drop i s)))])"

text \<open>\<open>.*?\<close>, lazy: nothing first, then one more character that is not a line feed.\<close>

definition m_lazy_dots :: matcher where
  "m_lazy_dots s i =
     map (\<lambda>k. i + k) [0..<Suc (length (takeWhile (\<lambda>c. c \<noteq> 10) (drop i s)))]"

text \<open>\<open>$\<close>: the end of the string, or just before a line feed that ends the string.\<close>

definition m_eos :: matcher where
  "m_eos s i = (if i = length s \<or> (Suc i = length s \<and> s ! i = 10) then [i] else [])"

definition m_seq :: "matcher \<Rightarrow> matcher \<Rightarrow> matcher" where
  "m_seq a b s i = concat (map (b s) (a s i))"

type_synonym pattern = "matcher \<times> matcher \<times> matcher"

text \<open>A match object: \<open>match.start()\<close> and \<open>match.group(1)\<close>.\<close>

record match_obj =
  m_start :: nat
  group1 :: ustr

definition match_at :: "pattern \<Rightarrow> ustr \<Rightarrow> nat \<Rightarrow> match_obj option" where
  "match_at p s i =
     (case p of (before, grp, after) \<Rightarrow>
       (case concat (map (\<lambda>a. concat (map (\<lambda>b. map (\<lambda>e. (a, b)) (after s b)) (grp s a)))
                         (before s i)) of
          [] \<Rightarrow> None
        | (a, b) # rest \<Rightarrow> Some \<lparr> m_start = i, group1 = take (b - a) (drop a s) \<rparr>))"

fun first_match :: "(nat \<Rightarrow> match_obj option) \<Rightarrow> nat list \<Rightarrow> match_obj option" where
  "first_match f [] = None"
| "first_match f (i # is) = (case f i of Some m \<Rightarrow> Some m | None \<Rightarrow> first_match f is)"

definition re_search :: "pattern \<Rightarrow> ustr \<Rightarrow> match_obj option" where
  "re_search p s = first_match (match_at p s) [0..<Suc (length s)]"

section \<open>Volume extractor\<close>

text \<open>
  The ideographs of the numeral class of the patterns (27 characters: the class has
  fewer than \<open>CHINESE_NUMBERS\<close> has keys), the Roman letters, and \<open>VOLUME_KEYWORDS\<close>.
\<close>

definition numeral_ideographs :: "uchar list" where
  "numeral_ideographs =
     [0x96F6, 0x4E00, 0x4E8C, 0x4E09, 0x56DB, 0x4E94, 0x516D, 0x4E03, 0x516B, 0x4E5D, 0x5341,
      0x767E, 0x5343, 0x4E07, 0x58F9, 0x8D30, 0x53C1, 0x8086, 0x4F0D, 0x9646, 0x67D2, 0x634C,
      0x7396, 0x62FE, 0x4F70, 0x4EDF, 0x842C]"

definition roman_letters :: "uchar list" where
  "roman_letters = [73, 86, 88, 76, 67, 68, 77]"

definition VOLUME_KEYWORDS :: "uchar list" where
  "VOLUME_KEYWORDS =
     [0x5377, 0x518A, 0x518C, 0x90E8, 0x7BC7, 0x96C6, 0x5B63, 0x671F, 0x8BDD, 0x56DE]"

text \<open>
  Membership in a class of literals, case-sensitive and under \<open>re.IGNORECASE\<close>; \<open>\d\<close>
  and \<open>\s\<close> do not depend on the flag.
\<close>

definition lit :: "uchar list \<Rightarrow> uchar \<Rightarrow> bool" where
  "lit L c = (c \<in> set L)"

definition lit_ic :: "runtime \<Rightarrow> uchar list \<Rightarrow> uchar \<Rightarrow> bool" where
  "lit_ic U L c = list_ex (\<lambda>l. ieq U l c) L"

definition is_d :: "runtime \<Rightarrow> uchar \<Rightarrow> bool" where
  "is_d U c = (decimal U c \<noteq> None)"

text \<open>
  \<open>pattern1\<close>: the ordinal mark U+7B2C, the numeral group, a keyword, \<open>(.*?)$\<close>. It is
  searched without flags.
\<close>

definition pattern1 :: "runtime \<Rightarrow> pattern" where
  "pattern1 U =
     (m_set (lit [0x7B2C]),
      m_plus (\<lambda>c. lit numeral_ideographs c \<or> is_d U c \<or> lit roman_letters c),
      m_seq (m_set (lit VOLUME_KEYWORDS)) (m_seq m_lazy_dots m_eos))"

text \<open>
  The list \<open>patterns\<close>, searched with \<open>re.IGNORECASE\<close>: a separator run, round brackets
  (ASCII and full-width), lenticular and tortoise-shell brackets, the letter \<open>v\<close>, and
  the ordinal mark with the two-character word for "part" (U+90E8 U+5206).
\<close>

definition num_ic :: "runtime \<Rightarrow> uchar \<Rightarrow> bool" where
  "num_ic U c = (lit_ic U numeral_ideographs c \<or> is_d U c \<or> lit_ic U roman_letters c)"

definition num_noroman_ic :: "runtime \<Rightarrow> uchar \<Rightarrow> bool" where
  "num_noroman_ic U c = (lit_ic U numeral_ideographs c \<or> is_d U c)"

definition patterns :: "runtime \<Rightarrow> pattern list" where
  "patterns U =
     [(m_plus (\<lambda>c. lit_ic U [45, 95] c \<or> isspace U c),
       m_plus (num_ic U),
       m_seq (m_opt (lit_ic U VOLUME_KEYWORDS)) m_eos),
      (m_set (lit_ic U [0xFF08, 40]),
       m_plus (num_ic U),
       m_seq (m_opt (lit_ic U VOLUME_KEYWORDS)) (m_seq (m_set (lit_ic U [0xFF09, 41])) m_eos)),
      (m_set (lit_ic U [0x3010, 0x3014]),
       m_plus (num_ic U),
       m_seq (m_opt (lit_ic U VOLUME_KEYWORDS))
         (m_seq (m_set (lit_ic U [0x3011, 0x3015])) m_eos)),
      (m_set (lit_ic U [118]),
       m_plus (num_noroman_ic U),
       m_eos),
      (m_set (lit_ic U [0x7B2C]),
       m_plus (num_noroman_ic U),
       m_seq (m_set (lit_ic U [0x90E8])) (m_seq (m_set (lit_ic U [0x5206])) m_eos))]"

text \<open>The last pattern, \<open>(\d+)$\<close>, searched without flags.\<close>

definition pattern3 :: "runtime \<Rightarrow> pattern" where
  "pattern3 U = (m_empty, m_plus (is_d U), m_eos)"

text \<open>
  The characters of \<open>rstrip(' -_..')\<close>: space, hyphen, underscore, the middle dot U+00B7
  and the katakana middle dot U+30FB.
\<close>

definition separators :: "uchar list" where
  "separators = [32, 45, 95, 0xB7, 0x30FB]"

definition base_title_of :: "ustr \<Rightarrow> match_obj \<Rightarrow> ustr" where
  "base_title_of title m = rstrip_where (lit separators) (take (m_start m) title)"

text \<open>
  One block \<open>if match: ... if volume is not None: return base_title, volume\<close>. The
  result is the error that leaves the function, \<open>Some\<close> of the pair returned, or \<open>None\<close>
  when the code goes on to the next rule.
\<close>

definition try_match ::
  "runtime \<Rightarrow> ustr \<Rightarrow> match_obj option \<Rightarrow> py_error + (ustr \<times> int option) option" where
  "try_match U title m =
     (case m of
        None \<Rightarrow> Inr None
      | Some mo \<Rightarrow>
          (case parse_volume_number U (group1 mo) of
             Inl e \<Rightarrow> Inl e
           | Inr None \<Rightarrow> Inr None
           | Inr (Some volume) \<Rightarrow> Inr (Some (base_title_of title mo, Some volume))))"

fun try_patterns ::
  "runtime \<Rightarrow> ustr \<Rightarrow> pattern list \<Rightarrow> py_error + (ustr \<times> int option) option" where
  "try_patterns U title [] = Inr None"
| "try_patterns U title (p # ps) =
     (case try_match U title (re_search p title) of
        Inl e \<Rightarrow> Inl e
      | Inr (Some r) \<Rightarrow> Inr (Some r)
      | Inr None \<Rightarrow> try_patterns U title ps)"

definition try_digits ::
  "runtime \<Rightarrow> ustr \<Rightarrow> py_error + (ustr \<times> int option) option" where
  "try_digits U title =
     (case re_search (pattern3 U) title of
        None \<Rightarrow> Inr None
      | Some mo \<Rightarrow>
          if length (group1 mo) \<le> 4
          then (case py_int U (group1 mo) of
                  Inl e \<Rightarrow> Inl e
                | Inr volume \<Rightarrow> Inr (Some (base_title_of title mo, Some volume)))
          else Inr None)"

definition extract_volume_with_context ::
  "runtime \<Rightarrow> ustr \<Rightarrow> py_error + (ustr \<times> int option)" where
  "extract_volume_with_context U title =
     (case try_match U title (re_search (pattern1 U) title) of
        Inl e \<Rightarrow> Inl e
      | Inr (Some r) \<Rightarrow> Inr r
      | Inr None \<Rightarrow>
          (case try_patterns U title (patterns U) of
             Inl e \<Rightarrow> Inl e
           | Inr (Some r) \<Rightarrow> Inr r
           | Inr None \<Rightarrow>
               (case try_digits U title of
                  Inl e \<Rightarrow> Inl e
                | Inr (Some r) \<Rightarrow> Inr r
                | Inr None \<Rightarrow> Inr (title, None))))"

section \<open>Title aligner\<close>

subsection \<open>Longest common subsequence\<close>

text \<open>
  The table \<open>dp\<close> is a list of \<open>m + 1\<close> rows of \<open>n + 1\<close> zeros, filled row by row in the
  two nested loops. Every index the loops and the backtracking use is within the table:
  \<open>1 \<le> i \<le> m\<close> and \<open>1 \<le> j \<le> n\<close>.
\<close>

type_synonym table = "nat list list"

definition dp_init :: "nat \<Rightarrow> nat \<Rightarrow> table" where
  "dp_init m n = replicate (Suc m) (replicate (Suc n) 0)"

definition dp_cell :: "ustr \<Rightarrow> ustr \<Rightarrow> table \<Rightarrow> nat \<Rightarrow> nat \<Rightarrow> nat" where
  "dp_cell s1 s2 dp i j =
     (if s1 ! (i - 1) = s2 ! (j - 1) then dp ! (i - 1) ! (j - 1) + 1
      else max (dp ! (i - 1) ! j) (dp ! i ! (j - 1)))"

definition fill_row :: "ustr \<Rightarrow> ustr \<Rightarrow> nat \<Rightarrow> table \<Rightarrow> table" where
  "fill_row s1 s2 i dp =
     fold (\<lambda>j dp. dp[i := (dp ! i)[j := dp_cell s1 s2 dp i j]]) [1..<Suc (length s2)] dp"

definition fill_table :: "ustr \<Rightarrow> ustr \<Rightarrow> table" where
  "fill_table s1 s2 =
     fold (fill_row s1 s2) [1..<Suc (length s1)] (dp_init (length s1) (length s2))"

text \<open>
  One iteration of the backtracking loop, on the state \<open>(i, j, lcs_chars)\<close>, and the loop
  \<open>while i > 0 and j > 0\<close>.
\<close>

definition backtrack_step ::
  "ustr \<Rightarrow> ustr \<Rightarrow> table \<Rightarrow> nat \<times> nat \<times> ustr \<Rightarrow> nat \<times> nat \<times> ustr" where
  "backtrack_step s1 s2 dp st =
     (case st of (i, j, lcs_chars) \<Rightarrow>
        if s1 ! (i - 1) = s2 ! (j - 1) then (i - 1, j - 1, lcs_chars @ [s1 ! (i - 1)])
        else if dp ! (i - 1) ! j > dp ! i ! (j - 1) then (i - 1, j, lcs_chars)
        else (i, j - 1, lcs_chars))"

function backtrack :: "ustr \<Rightarrow> ustr \<Rightarrow> table \<Rightarrow> nat \<times> nat \<times> ustr \<Rightarrow> ustr" where
  "backtrack s1 s2 dp (i, j, lcs_chars) =
     (if i > 0 \<and> j > 0 then backtrack s1 s2 dp (backtrack_step s1 s2 dp (i, j, lcs_chars))
      else lcs_chars)"
  by pat_completeness auto
termination
  by (relation "measure (\<lambda>(s1, s2, dp, i, j, lcs_chars). i + j)")
     (auto simp: backtrack_step_def split: if_splits)

definition longest_common_subsequence :: "ustr \<Rightarrow> ustr \<Rightarrow> ustr" where
  "longest_common_subsequence s1 s2 =
     rev (backtrack s1 s2 (fill_table s1 s2) (length s1, length s2, []))"

text \<open>The loop of \<open>find_longest_common_subsequence\<close>, which returns \<open>None\<close> at an empty result.\<close>

fun lcs_fold :: "ustr \<Rightarrow> ustr list \<Rightarrow> ustr option" where
  "lcs_fold lcs [] = Some lcs"
| "lcs_fold lcs (title # titles) =
     (let lcs' = longest_common_subsequence lcs title
      in if lcs' = [] then None else lcs_fold lcs' titles)"

definition find_longest_common_subsequence :: "ustr list \<Rightarrow> ustr option" where
  "find_longest_common_subsequence titles =
     (case titles of
        [] \<Rightarrow> None
      | base # rest \<Rightarrow>
          (case lcs_fold base rest of
             None \<Rightarrow> None
           | Some lcs \<Rightarrow> if length lcs \<ge> 5 then Some lcs else None))"

subsection \<open>Common prefix and word boundary\<close>

text \<open>
  \<open>word_boundaries\<close>: space, hyphen, underscore, middle dot, tilde, full-width tilde,
  colon, full-width colon, middle dot again, katakana middle dot.
\<close>

definition word_boundaries :: "uchar list" where
  "word_boundaries = [32, 45, 95, 0xB7, 126, 0xFF5E, 58, 0xFF1A, 0xB7, 0x30FB]"

text \<open>
  The loop \<open>for i in range(len(text) - 1, -1, -1)\<close>: \<open>trim_scan U text k\<close> has still to
  look at the indices below \<open>k\<close>.
\<close>

fun trim_scan :: "runtime \<Rightarrow> ustr \<Rightarrow> nat \<Rightarrow> ustr" where
  "trim_scan U text 0 = text"
| "trim_scan U text (Suc i) =
     (if text ! i \<in> set word_boundaries then rstrip U (take i text)
      else trim_scan U text i)"

definition trim_to_word_boundary :: "runtime \<Rightarrow> ustr \<Rightarrow> ustr" where
  "trim_to_word_boundary U text = trim_scan U text (length text)"

text \<open>
  \<open>os.path.commonprefix\<close> of the standard library: the least and the greatest string of
  the list in the lexicographic order of code points, compared character by character
  up to the first difference. The least string is never longer than its common
  prefix with the greatest one allows, so the read \<open>s2[i]\<close> is in range; the third
  equation is not reached.
\<close>

fun cp_loop :: "ustr \<Rightarrow> ustr \<Rightarrow> ustr" where
  "cp_loop [] s2 = []"
| "cp_loop (c # s1) (d # s2) = (if c \<noteq> d then [] else c # cp_loop s1 s2)"
| "cp_loop (c # s1) [] = []"

definition commonprefix :: "ustr list \<Rightarrow> ustr" where
  "commonprefix m =
     (case m of
        [] \<Rightarrow> []
      | x # xs \<Rightarrow> cp_loop (fold min xs x) (fold max xs x))"

subsection \<open>Common words\<close>

text \<open>
  \<open>re.split\<close> on the runs of characters that are neither CJK ideographs (U+4E00 to U+9FFF) nor
  word characters: the pieces between the maximal runs of
  separator characters, with an empty piece where the title starts or ends with a run.
\<close>

definition is_word_sep :: "runtime \<Rightarrow> uchar \<Rightarrow> bool" where
  "is_word_sep U c = (\<not> (is_cjk c \<or> isalnum U c \<or> c = 95))"

function re_split :: "(uchar \<Rightarrow> bool) \<Rightarrow> ustr \<Rightarrow> ustr \<Rightarrow> ustr list" where
  "re_split P cur [] = [cur]"
| "re_split P cur (c # cs) =
     (if P c then cur # re_split P [] (dropWhile P cs) else re_split P (cur @ [c]) cs)"
  by pat_completeness auto
termination
  by (relation "measure (\<lambda>(P, cur, s). length s)")
     (auto simp: length_dropWhile_le le_imp_less_Suc)

text \<open>
  A Python \<open>set\<close> of strings has no order of its own: the order in which it is iterated
  comes from the hashes of its elements, and the hash of a string changes from one
  process to the next. The model keeps the elements of a set in a list without
  repetitions and takes the iteration order as a parameter \<open>h\<close>, the rank of each
  element in the hash table: iterating a set lists its elements by rank.
\<close>

type_synonym set_order = "ustr \<Rightarrow> nat"

definition set_of_list :: "ustr list \<Rightarrow> ustr list" where
  "set_of_list ws = remdups ws"

definition set_inter :: "ustr list \<Rightarrow> ustr list \<Rightarrow> ustr list" where
  "set_inter a b = filter (\<lambda>w. w \<in> set b) a"

definition set_iter :: "set_order \<Rightarrow> ustr list \<Rightarrow> ustr list" where
  "set_iter h a = sort_key h a"

definition words_of :: "runtime \<Rightarrow> ustr \<Rightarrow> ustr list" where
  "words_of U title = set_of_list (filter (\<lambda>w. length w \<ge> 2) (re_split (is_word_sep U) [] title))"

text \<open>
  \<open>sorted(common_words, key=len, reverse=True)\<close>: Python's sort is stable, also with
  \<open>reverse=True\<close>, so words of equal length stay in the order of the iteration.
\<close>

definition find_common_words :: "runtime \<Rightarrow> set_order \<Rightarrow> ustr list \<Rightarrow> ustr list" where
  "find_common_words U h titles =
     (case map (words_of U) titles of
        [] \<Rightarrow> []
      | w # ws \<Rightarrow> sort_key (\<lambda>x. - int (length x)) (set_iter h (fold (\<lambda>b a. set_inter a b) ws w)))"

subsection \<open>Base title\<close>

text \<open>\<open>' '.join(words)\<close>.\<close>

fun join_space :: "ustr list \<Rightarrow> ustr" where
  "join_space [] = []"
| "join_space [w] = w"
| "join_space (w # ws) = w @ [32] @ join_space ws"

text \<open>
  \<open>Counter(xs).most_common(1)[0][0]\<close> on a non-empty list: the keys of a counter are in
  the order of their first occurrence, and the first key with the greatest count wins.
\<close>

definition counter_items :: "ustr list \<Rightarrow> (ustr \<times> nat) list" where
  "counter_items xs = map (\<lambda>x. (x, count_list xs x)) (rev (remdups (rev xs)))"

fun max_count :: "(ustr \<times> nat) \<Rightarrow> (ustr \<times> nat) list \<Rightarrow> ustr \<times> nat" where
  "max_count best [] = best"
| "max_count best (kv # kvs) = max_count (if snd kv > snd best then kv else best) kvs"

definition most_common1 :: "ustr list \<Rightarrow> ustr" where
  "most_common1 xs = (case counter_items xs of [] \<Rightarrow> [] | kv # kvs \<Rightarrow> fst (max_count kv kvs))"

text \<open>
  The first loop of \<open>extract_base_title\<close>: the simplified titles that are not empty,
  stripped of white space. An error of the extractor leaves the function.
\<close>

fun simplify_titles :: "runtime \<Rightarrow> ustr list \<Rightarrow> py_error + ustr list" where
  "simplify_titles U [] = Inr []"
| "simplify_titles U (title # titles) =
     (case extract_volume_with_context U title of
        Inl e \<Rightarrow> Inl e
      | Inr (simplified, volume) \<Rightarrow>
          (case simplify_titles U titles of
             Inl e \<Rightarrow> Inl e
           | Inr rest \<Rightarrow> Inr ((if simplified \<noteq> [] then [strip U simplified] else []) @ rest)))"

text \<open>The steps 2 to 6 of \<open>extract_base_title\<close>, on the list \<open>simplified_titles\<close>.\<close>

definition align :: "runtime \<Rightarrow> set_order \<Rightarrow> ustr list \<Rightarrow> ustr list \<Rightarrow> ustr" where
  "align U h titles simplified_titles =
     (if length simplified_titles = 1 then hd simplified_titles
      else
        let common_prefix = commonprefix simplified_titles;
            trimmed = trim_to_word_boundary U common_prefix
        in if length common_prefix \<ge> 3 \<and> length trimmed \<ge> 3 then trimmed
           else (case find_longest_common_subsequence simplified_titles of
                   Some lcs_result \<Rightarrow> lcs_result
                 | None \<Rightarrow>
                     (case find_common_words U h simplified_titles of
                        w # ws \<Rightarrow> join_space (w # ws)
                      | [] \<Rightarrow>
                          if simplified_titles \<noteq> [] then most_common1 simplified_titles
                          else (case titles of [] \<Rightarrow> [] | t # ts \<Rightarrow> t))))"

definition extract_base_title :: "runtime \<Rightarrow> set_order \<Rightarrow> ustr list \<Rightarrow> py_error + ustr" where
  "extract_base_title U h titles =
     (if titles = [] then Inr []
      else case simplify_titles U titles of
        Inl e \<Rightarrow> Inl e
      | Inr simplified \<Rightarrow>
          Inr (align U h titles (if simplified = [] then titles else simplified)))"

section \<open>The host's metadata objects and database\<close>

text \<open>
  A value of a field that the plugin only copies: \<open>None\<close>, a string, a list, a tuple, or
  any other object (a number, a date), which the model identifies by a token.
\<close>

datatype pyval = PNone | PStr ustr | PList "pyval list" | PTuple "pyval list" | PObj nat

text \<open>
  The fields of the host's \<open>Metadata\<close> objects that the plugin reads or writes. A field
  the code guards with \<open>hasattr\<close> is an option, \<open>None\<close> for an object without the
  attribute. The six attributes copied by name at the end of \<open>batch_update_metadata\<close>
  are kept in \<open>others\<close>, by name.
\<close>

record metadata =
  title :: ustr
  authors :: "ustr list option"
  sort_authors :: "ustr list option"
  sort_title :: "ustr option"
  comments :: "pyval option"
  tags :: "ustr list"
  series :: pyval
  series_index :: pyval
  publisher :: pyval
  others :: "(string \<times> pyval) list"

text \<open>
  \<open>Metadata(new_title)\<close>: a new object with the title; the fields the constructor fills
  with the host's defaults are written as absent or empty.
\<close>

definition Metadata :: "ustr \<Rightarrow> metadata" where
  "Metadata t = \<lparr> title = t, authors = None, sort_authors = None, sort_title = None,
     comments = None, tags = [], series = PNone, series_index = PNone, publisher = PNone,
     others = [] \<rparr>"

text \<open>
  What \<open>db.get_metadata\<close> does for an identifier: it raises, it returns \<open>None\<close> or an
  object that Python takes for false, or it returns an object that Python takes for
  true. \<open>db.set_metadata\<close> raises for the identifiers in \<open>read_only\<close> and otherwise
  stores the object.
\<close>

datatype lookup = Raises | Falsy | Truthy metadata

record database =
  rows :: "int \<Rightarrow> lookup"
  read_only :: "int \<Rightarrow> bool"

definition set_metadata :: "database \<Rightarrow> int \<Rightarrow> metadata \<Rightarrow> database option" where
  "set_metadata db book_id mi =
     (if read_only db book_id then None
      else Some (db \<lparr> rows := (rows db)(book_id := Truthy mi) \<rparr>))"

section \<open>Rename planner\<close>

text \<open>\<open>f"{i:0{digits}d}"\<close> for \<open>i \<ge> 0\<close>: zeros on the left up to the width, never a cut.\<close>

definition zero_pad :: "nat \<Rightarrow> nat \<Rightarrow> ustr" where
  "zero_pad digits i = replicate (digits - length (str_nat i)) 48 @ str_nat i"

text \<open>\<open>digits = 1 if total_books < 10 else 2 if total_books < 100 else 3\<close>.\<close>

definition batch_digits :: "nat \<Rightarrow> nat" where
  "batch_digits total_books = (if total_books < 10 then 1 else if total_books < 100 then 2 else 3)"

text \<open>
  \<open>math.ceil(math.log10(n))\<close> for \<open>n \<ge> 1\<close>, computed on the integers: the least \<open>d\<close> with
  \<open>n \<le> 10 ^ d\<close>. The lemma \<open>ceil_log10_real\<close> below shows that this is the ceiling of
  the real logarithm.
\<close>

fun ceil_log10 :: "nat \<Rightarrow> nat" where
  "ceil_log10 n = (if n \<le> 1 then 0 else Suc (ceil_log10 ((n + 9) div 10)))"

declare ceil_log10.simps [simp del]

definition preview_digits :: "nat \<Rightarrow> nat" where
  "preview_digits total_books = ceil_log10 (total_books + 1)"

text \<open>The new title of the \<open>i\<close>-th book, as each of the two functions builds it.\<close>

definition chinese_suffix :: "nat \<Rightarrow> ustr" where
  "chinese_suffix i = [0x7B2C] @ int_to_chinese (int i) @ [0x5377]"

definition batch_title :: "ustr \<Rightarrow> string \<Rightarrow> nat \<Rightarrow> nat \<Rightarrow> ustr" where
  "batch_title new_title_base volume_format total_books i =
     new_title_base @
       (if volume_format = ''chinese'' then chinese_suffix i
        else zero_pad (batch_digits total_books) i)"

definition preview_title :: "ustr \<Rightarrow> string \<Rightarrow> nat \<Rightarrow> nat \<Rightarrow> ustr" where
  "preview_title new_title_base volume_format total_books i =
     new_title_base @
       (if volume_format = ''chinese'' then chinese_suffix i
        else zero_pad (preview_digits total_books) i)"

text \<open>The loop \<open>for attr in [...]\<close> of step 5: a list or tuple is copied into a new list.\<close>

definition copied_attrs :: "string list" where
  "copied_attrs =
     [''identifiers'', ''languages'', ''pubdate'', ''timestamp'', ''last_modified'', ''rating'']"

definition copy_value :: "pyval \<Rightarrow> pyval" where
  "copy_value v = (case v of PTuple xs \<Rightarrow> PList xs | _ \<Rightarrow> v)"

definition copy_others :: "metadata \<Rightarrow> (string \<times> pyval) list" where
  "copy_others mi =
     List.map_filter (\<lambda>a. map_option (\<lambda>v. (a, copy_value v)) (map_of (others mi) a))
       copied_attrs"

text \<open>
  The body of the loop of \<open>batch_update_metadata\<close> between the construction of \<open>new_mi\<close>
  and the call of \<open>set_metadata\<close> (steps 1 to 5).
\<close>

definition build_metadata ::
  "runtime \<Rightarrow> metadata \<Rightarrow> ustr \<Rightarrow> ustr \<Rightarrow> bool \<Rightarrow> bool \<Rightarrow> bool \<Rightarrow> metadata" where
  "build_metadata U mi new_title author clear_tags clear_series clear_publisher =
     (let new_mi = Metadata new_title;
          new_mi =
            (if author \<noteq> [] \<and> strip U author \<noteq> []
             then new_mi \<lparr> authors := Some [strip U author],
                           sort_authors := Some [strip U author] \<rparr>
             else new_mi \<lparr> authors := (case authors mi of Some a \<Rightarrow> Some a
                                          | None \<Rightarrow> authors new_mi),
                           sort_authors := (case sort_authors mi of Some a \<Rightarrow> Some a
                                            | None \<Rightarrow> sort_authors new_mi) \<rparr>);
          new_mi =
            (case sort_title mi of
               Some t \<Rightarrow> new_mi \<lparr> sort_title := Some (if t \<noteq> [] then t else new_title) \<rparr>
             | None \<Rightarrow> new_mi \<lparr> sort_title := Some new_title \<rparr>);
          new_mi =
            (case comments mi of
               Some c \<Rightarrow> new_mi \<lparr> comments := Some c \<rparr>
             | None \<Rightarrow> new_mi);
          new_mi = (if clear_tags then new_mi \<lparr> tags := [] \<rparr> else new_mi \<lparr> tags := tags mi \<rparr>);
          new_mi =
            (if clear_series then new_mi \<lparr> series := PStr [], series_index := PStr [] \<rparr>
             else new_mi \<lparr> series := series mi, series_index := series_index mi \<rparr>);
          new_mi =
            (if clear_publisher then new_mi \<lparr> publisher := publisher mi \<rparr>
             else new_mi \<lparr> publisher := PStr [] \<rparr>)
      in new_mi \<lparr> others := copy_others mi \<rparr>)"

text \<open>
  The loop of \<open>batch_update_metadata\<close> over \<open>enumerate(book_ids, 1)\<close>, on the state
  \<open>(db, updated_count)\<close>. An exception of \<open>get_metadata\<close> or \<open>set_metadata\<close> is caught by
  the \<open>except\<close> of the loop body, and the loop goes on with the next book.
\<close>

fun batch_loop ::
  "runtime \<Rightarrow> ustr \<Rightarrow> ustr \<Rightarrow> bool \<Rightarrow> bool \<Rightarrow> bool \<Rightarrow> string \<Rightarrow> nat \<Rightarrow>
   (nat \<times> int) list \<Rightarrow> database \<times> nat \<Rightarrow> database \<times> nat" where
  "batch_loop U base author ct cs cp fmt total_books [] st = st"
| "batch_loop U base author ct cs cp fmt total_books ((i, book_id) # rest) (db, updated_count) =
     (case rows db book_id of
        Raises \<Rightarrow> batch_loop U base author ct cs cp fmt total_books rest (db, updated_count)
      | Falsy \<Rightarrow> batch_loop U base author ct cs cp fmt total_books rest (db, updated_count)
      | Truthy mi \<Rightarrow>
          (case set_metadata db book_id
                  (build_metadata U mi (batch_title base fmt total_books i) author ct cs cp) of
             None \<Rightarrow> batch_loop U base author ct cs cp fmt total_books rest (db, updated_count)
           | Some db' \<Rightarrow>
               batch_loop U base author ct cs cp fmt total_books rest (db', updated_count + 1)))"

definition enumerate1 :: "'a list \<Rightarrow> (nat \<times> 'a) list" where
  "enumerate1 xs = zip [1..<Suc (length xs)] xs"

definition batch_update_metadata ::
  "runtime \<Rightarrow> database \<Rightarrow> int list \<Rightarrow> ustr \<Rightarrow> ustr \<Rightarrow> bool \<Rightarrow> bool \<Rightarrow> bool \<Rightarrow> string \<Rightarrow>
   database \<times> nat" where
  "batch_update_metadata U db book_ids new_title_base author clear_tags clear_series
     clear_publisher volume_format =
     batch_loop U new_title_base author clear_tags clear_series clear_publisher volume_format
       (length book_ids) (enumerate1 book_ids) (db, 0)"

text \<open>
  \<open>preview_metadata_changes\<close>: the first loop collects \<open>books_data\<close> and leaves out a
  book whose metadata is missing or whose lookup or extraction raises; the second loop
  numbers the books collected.
\<close>

record book_data =
  bd_id :: int
  bd_mi :: metadata
  bd_volume :: "int option"

fun collect_books_data :: "runtime \<Rightarrow> database \<Rightarrow> int list \<Rightarrow> book_data list" where
  "collect_books_data U db [] = []"
| "collect_books_data U db (book_id # ids) =
     (case rows db book_id of
        Raises \<Rightarrow> []
      | Falsy \<Rightarrow> []
      | Truthy mi \<Rightarrow>
          (case extract_volume_with_context U (title mi) of
             Inl e \<Rightarrow> []
           | Inr (simplified, volume) \<Rightarrow>
               [\<lparr> bd_id = book_id, bd_mi = mi, bd_volume = volume \<rparr>]))
     @ collect_books_data U db ids"

text \<open>A preview dictionary; the field \<open>p_x\<close> is the key \<open>x\<close>.\<close>

record preview =
  p_book_id :: int
  p_old_title :: ustr
  p_new_title :: ustr
  p_old_authors :: "ustr list"
  p_new_author :: ustr
  p_index :: nat

definition preview_metadata_changes ::
  "runtime \<Rightarrow> database \<Rightarrow> int list \<Rightarrow> ustr \<Rightarrow> ustr \<Rightarrow> string \<Rightarrow> preview list" where
  "preview_metadata_changes U db book_ids new_title_base author volume_format =
     (let books_data = collect_books_data U db book_ids
      in map (\<lambda>(i, bd).
                \<lparr> p_book_id = bd_id bd,
                  p_old_title = title (bd_mi bd),
                  p_new_title = preview_title new_title_base volume_format (length books_data) i,
                  p_old_authors = (case authors (bd_mi bd) of Some a \<Rightarrow> a | None \<Rightarrow> []),
                  p_new_author = author,
                  p_index = i \<rparr>)
             (enumerate1 books_data))"

section \<open>Volume sorter\<close>

text \<open>
  The loop of \<open>detect_and_sort_books_by_volume\<close>: a lookup or an extraction that raises
  gives the pair \<open>(book_id, 0)\<close>, a missing metadata object gives no pair, and
  \<open>volume or 0\<close> turns an absent volume into 0. The list is then sorted in place by the
  second component; Python's sort is stable.
\<close>

fun books_with_volume :: "runtime \<Rightarrow> database \<Rightarrow> int list \<Rightarrow> (int \<times> int) list" where
  "books_with_volume U db [] = []"
| "books_with_volume U db (book_id # ids) =
     (case rows db book_id of
        Raises \<Rightarrow> [(book_id, 0)]
      | Falsy \<Rightarrow> []
      | Truthy mi \<Rightarrow>
          (case extract_volume_with_context U (title mi) of
             Inl e \<Rightarrow> [(book_id, 0)]
           | Inr (simplified, volume) \<Rightarrow>
               [(book_id, case volume of None \<Rightarrow> 0 | Some v \<Rightarrow> v)]))
     @ books_with_volume U db ids"

definition detect_and_sort_books_by_volume ::
  "runtime \<Rightarrow> database \<Rightarrow> int list \<Rightarrow> (int \<times> int) list" where
  "detect_and_sort_books_by_volume U db book_ids = sort_key snd (books_with_volume U db book_ids)"

section \<open>The dialog\<close>

text \<open>
  The fields of \<open>BatchEditMetadataDialog\<close> that hold the books. The two dictionaries are
  association lists in the order of insertion, read with \<open>map_of\<close> and written with
  \<open>AList.update\<close>; the three lists are meant to run in parallel.
\<close>

record dialog =
  dlg_db :: database
  dlg_book_ids :: "int list"
  books_dict :: "(int \<times> metadata) list"
  book_id_to_title :: "(int \<times> ustr) list"
  valid_book_ids :: "int list"
  books :: "metadata list"
  titles :: "ustr list"


















section \<open>Conditions on the host and example libraries\<close>

text \<open>
  The host's guarantee for one batch: every identifier of the batch has a metadata
  object that Python takes for true, and the database accepts the write. For the
  preview, the extractor must in addition not raise on the title.
\<close>

definition retrievable :: "database \<Rightarrow> int list \<Rightarrow> bool" where
  "retrievable db ids =
     list_all (\<lambda>b. \<not> read_only db b \<and> (case rows db b of Truthy mi \<Rightarrow> True | _ \<Rightarrow> False)) ids"

definition extractable :: "runtime \<Rightarrow> database \<Rightarrow> int list \<Rightarrow> bool" where
  "extractable U db ids =
     list_all (\<lambda>b. case rows db b of
                    Truthy mi \<Rightarrow> (case extract_volume_with_context U (title mi) of
                                   Inr r \<Rightarrow> True | Inl e \<Rightarrow> False)
                  | _ \<Rightarrow> False) ids"

text \<open>The titles the database holds for a list of identifiers.\<close>

definition written_titles :: "database \<Rightarrow> int list \<Rightarrow> ustr list" where
  "written_titles db ids = map (\<lambda>b. case rows db b of Truthy mi \<Rightarrow> title mi | _ \<Rightarrow> []) ids"

text \<open>
  A book with a tag, a series and a publisher; a library of three volumes, whose titles
  are \<open>X\<close> followed by the ordinal mark, 2 and the volume keyword, the same with 1, and
  \<open>X\<close> alone; and a library in which every identifier has a book titled \<open>T\<close>.
\<close>

definition book_md :: "ustr \<Rightarrow> metadata" where
  "book_md t = (Metadata t) \<lparr> tags := [ascii ''manga''], series := PStr (ascii ''S''),
                              series_index := PObj 1, publisher := PStr (ascii ''P'') \<rparr>"

definition book :: "ustr \<Rightarrow> lookup" where
  "book t = Truthy (book_md t)"

definition series_db :: database where
  "series_db =
     \<lparr> rows = (\<lambda>i. if i = 1 then book (ascii ''X'' @ [0x7B2C, 50, 0x5377])
                   else if i = 2 then book (ascii ''X'' @ [0x7B2C, 49, 0x5377])
                   else if i = 3 then book (ascii ''X'')
                   else Falsy),
       read_only = (\<lambda>i. False) \<rparr>"

definition uniform_db :: database where
  "uniform_db = \<lparr> rows = (\<lambda>i. book (ascii ''T'')), read_only = (\<lambda>i. False) \<rparr>"

text \<open>
  The characters a numeral group of the patterns can hold: a decimal digit, one of the
  ideographs or Roman letters, or a character that \<open>re.IGNORECASE\<close> identifies with one
  of them. \<open>digits_decimal\<close> says of the runtime's tables that whatever \<open>str.isdigit\<close>
  accepts among these characters is a decimal digit, so that \<open>int\<close> converts it (in
  Unicode none of the ideographs and letters is a digit); \<open>within_limit\<close>, above, says
  that a string is not too long for \<open>int\<close>. Every pattern of the
  extractor captures a non-empty run of such characters: \<open>numeral_pattern\<close>.
\<close>

definition numeral_class :: "runtime \<Rightarrow> uchar \<Rightarrow> bool" where
  "numeral_class U c =
     (is_d U c \<or> lit numeral_ideographs c \<or> lit roman_letters c \<or>
      lit_ic U numeral_ideographs c \<or> lit_ic U roman_letters c)"

definition digits_decimal :: "runtime \<Rightarrow> bool" where
  "digits_decimal U =
     (\<forall>c. isdigit U c \<and>
          (lit numeral_ideographs c \<or> lit roman_letters c \<or> lit_ic U numeral_ideographs c \<or>
           lit_ic U roman_letters c)
          \<longrightarrow> decimal U c \<noteq> None)"

definition numeral_pattern :: "runtime \<Rightarrow> pattern \<Rightarrow> bool" where
  "numeral_pattern U p =
     (\<exists>before P after. p = (before, m_plus P, after) \<and> (\<forall>c. P c \<longrightarrow> numeral_class U c))"

text \<open>The values \<open>roman_to_int\<close> reads from its dictionary, with the default 0.\<close>

definition roman_values :: "int set" where
  "roman_values = {0, 1, 5, 10, 50, 100, 500, 1000}"




section \<open>Properties of the numeral converter\<close>

lemma roundtrip_table: "list_all (\<lambda>n. chinese_to_int (int_to_chinese n) = n) [0..99]"
  by code_simp

text \<open>
  Claim C8. For every integer \<open>n\<close> from 0 to 99, formatting \<open>n\<close> with \<open>int_to_chinese\<close> and
  parsing the result with \<open>chinese_to_int\<close> gives \<open>n\<close> back.
\<close>

theorem chinese_roundtrip:
  "0 \<le> n \<Longrightarrow> n \<le> 99 \<Longrightarrow> chinese_to_int (int_to_chinese n) = n"
  using roundtrip_table by (simp add: list_all_iff)

text \<open>The round trip at 42.\<close>

theorem chinese_roundtrip_witness:
  "(0::int) \<le> 42 \<and> (42::int) \<le> 99 \<and> chinese_to_int (int_to_chinese 42) = 42"
  using chinese_roundtrip [of 42] by simp

section \<open>Properties of the title aligner\<close>

subsection \<open>The tie-break of the backtracking\<close>

lemma tie_ab_ba:
  "ascii ''ab'' ! (2 - 1) \<noteq> ascii ''ba'' ! (2 - 1)"
  "fill_table (ascii ''ab'') (ascii ''ba'') ! (2 - 1) ! 2
     = fill_table (ascii ''ab'') (ascii ''ba'') ! 2 ! (2 - 1)"
  by code_simp+

lemma greater_ba_b:
  "ascii ''ba'' ! (2 - 1) \<noteq> ascii ''b'' ! (1 - 1)"
  "fill_table (ascii ''ba'') (ascii ''b'') ! (2 - 1) ! 1
     > fill_table (ascii ''ba'') (ascii ''b'') ! 2 ! (1 - 1)"
  by code_simp+

lemma less_b_ba:
  "ascii ''b'' ! (1 - 1) \<noteq> ascii ''ba'' ! (2 - 1)"
  "fill_table (ascii ''b'') (ascii ''ba'') ! (1 - 1) ! 2
     < fill_table (ascii ''b'') (ascii ''ba'') ! 1 ! (2 - 1)"
  by code_simp+

text \<open>
  Claim C4, as the code has it. In the backtracking loop of \<open>longest_common_subsequence\<close>,
  when the current characters of the two strings differ, the step decrements exactly one
  index and leaves the characters collected so far unchanged. When the cells
  \<open>dp[i-1][j]\<close> and \<open>dp[i][j-1]\<close> are equal it decrements \<open>j\<close>, the index into the second
  string, and leaves \<open>i\<close> unchanged; it does the same when \<open>dp[i-1][j]\<close> is the smaller
  one. The first string's index \<open>i\<close> is decremented when \<open>dp[i-1][j]\<close> is strictly greater,
  and only then; the loop goes on from the state so reached.
\<close>

theorem backtrack_tie_decrements_second:
  "s1 ! (i - 1) \<noteq> s2 ! (j - 1) \<Longrightarrow>
   (dp ! (i - 1) ! j = dp ! i ! (j - 1) \<longrightarrow>
      backtrack_step s1 s2 dp (i, j, lcs_chars) = (i, j - 1, lcs_chars)) \<and>
   (dp ! (i - 1) ! j < dp ! i ! (j - 1) \<longrightarrow>
      backtrack_step s1 s2 dp (i, j, lcs_chars) = (i, j - 1, lcs_chars)) \<and>
   (dp ! (i - 1) ! j > dp ! i ! (j - 1) \<longrightarrow>
      backtrack_step s1 s2 dp (i, j, lcs_chars) = (i - 1, j, lcs_chars)) \<and>
   (0 < i \<and> 0 < j \<longrightarrow>
      (fst (backtrack_step s1 s2 dp (i, j, lcs_chars)) = i - 1
         \<longleftrightarrow> dp ! (i - 1) ! j > dp ! i ! (j - 1)) \<and>
      backtrack s1 s2 dp (i, j, lcs_chars)
        = backtrack s1 s2 dp
            (if dp ! (i - 1) ! j > dp ! i ! (j - 1) then (i - 1, j, lcs_chars)
             else (i, j - 1, lcs_chars)))"
  by (auto simp: backtrack_step_def)

text \<open>
  The three cases on concrete strings. On \<open>ab\<close> and \<open>ba\<close> at \<open>i = j = 2\<close> the characters
  \<open>b\<close> and \<open>a\<close> differ and both neighbouring cells hold 1: the step goes to \<open>(2, 1)\<close>. On
  \<open>ba\<close> and \<open>b\<close> at \<open>i = 2\<close>, \<open>j = 1\<close> the cell \<open>dp[1][1]\<close> holds 1 and \<open>dp[2][0]\<close> holds
  0: the step goes to \<open>(1, 1)\<close>. On \<open>b\<close> and \<open>ba\<close> at \<open>i = 1\<close>, \<open>j = 2\<close> the cell
  \<open>dp[0][2]\<close> holds 0 and \<open>dp[1][1]\<close> holds 1: the step goes to \<open>(1, 1)\<close>.
\<close>

theorem backtrack_tie_witness:
  "ascii ''ab'' ! (2 - 1) \<noteq> ascii ''ba'' ! (2 - 1) \<and>
   fill_table (ascii ''ab'') (ascii ''ba'') ! (2 - 1) ! 2
     = fill_table (ascii ''ab'') (ascii ''ba'') ! 2 ! (2 - 1) \<and>
   backtrack_step (ascii ''ab'') (ascii ''ba'') (fill_table (ascii ''ab'') (ascii ''ba''))
     (2, 2, []) = (2, 1, []) \<and>
   backtrack (ascii ''ab'') (ascii ''ba'') (fill_table (ascii ''ab'') (ascii ''ba''))
     (2, 2, [])
     = backtrack (ascii ''ab'') (ascii ''ba'') (fill_table (ascii ''ab'') (ascii ''ba''))
         (2, 1, []) \<and>
   ascii ''ba'' ! (2 - 1) \<noteq> ascii ''b'' ! (1 - 1) \<and>
   fill_table (ascii ''ba'') (ascii ''b'') ! (2 - 1) ! 1
     > fill_table (ascii ''ba'') (ascii ''b'') ! 2 ! (1 - 1) \<and>
   backtrack_step (ascii ''ba'') (ascii ''b'') (fill_table (ascii ''ba'') (ascii ''b''))
     (2, 1, []) = (1, 1, []) \<and>
   ascii ''b'' ! (1 - 1) \<noteq> ascii ''ba'' ! (2 - 1) \<and>
   fill_table (ascii ''b'') (ascii ''ba'') ! (1 - 1) ! 2
     < fill_table (ascii ''b'') (ascii ''ba'') ! 1 ! (2 - 1) \<and>
   backtrack_step (ascii ''b'') (ascii ''ba'') (fill_table (ascii ''b'') (ascii ''ba''))
     (1, 2, []) = (1, 1, [])"
  using tie_ab_ba greater_ba_b less_b_ba
    backtrack_tie_decrements_second
      [OF tie_ab_ba(1), of "fill_table (ascii ''ab'') (ascii ''ba'')" "[]"]
    backtrack_tie_decrements_second
      [OF greater_ba_b(1), of "fill_table (ascii ''ba'') (ascii ''b'')" "[]"]
    backtrack_tie_decrements_second
      [OF less_b_ba(1), of "fill_table (ascii ''b'') (ascii ''ba'')" "[]"]
  by simp

text \<open>
  The claim as the specification words it, with the first string's index decremented on
  a tie, fails on the same strings: the step from \<open>(2, 2)\<close> does not lead to \<open>(1, 2)\<close>,
  and the subsequence returned is \<open>b\<close>, where a step to \<open>(1, 2)\<close> would have given \<open>a\<close>.
\<close>

theorem backtrack_tie_counterexample:
  "ascii ''ab'' ! (2 - 1) \<noteq> ascii ''ba'' ! (2 - 1) \<and>
   fill_table (ascii ''ab'') (ascii ''ba'') ! (2 - 1) ! 2
     = fill_table (ascii ''ab'') (ascii ''ba'') ! 2 ! (2 - 1) \<and>
   backtrack_step (ascii ''ab'') (ascii ''ba'') (fill_table (ascii ''ab'') (ascii ''ba''))
     (2, 2, []) \<noteq> (2 - 1, 2, []) \<and>
   longest_common_subsequence (ascii ''ab'') (ascii ''ba'') = ascii ''b''"
  by code_simp

section \<open>Properties of the rename planner\<close>

subsection \<open>The effect of a batch on the database\<close>

lemma title_build_metadata [simp]:
  "title (build_metadata U mi t a ct cs cp) = t"
  by (simp add: build_metadata_def Metadata_def Let_def split: option.splits)

lemma retrievableD:
  "retrievable db ids \<Longrightarrow> b \<in> set ids \<Longrightarrow> \<not> read_only db b \<and> (\<exists>mi. rows db b = Truthy mi)"
  by (cases "rows db b") (auto simp: retrievable_def list_all_iff)

lemma batch_loop_effect:
  assumes "distinct ids" and "retrievable db ids"
  shows "\<exists>db'. batch_loop U base author ct cs cp fmt n (zip [k..<k + length ids] ids) (db, c)
            = (db', c + length ids)
          \<and> read_only db' = read_only db
          \<and> (\<forall>b. b \<notin> set ids \<longrightarrow> rows db' b = rows db b)
          \<and> (\<forall>j<length ids. \<forall>mi. rows db (ids ! j) = Truthy mi \<longrightarrow>
                rows db' (ids ! j)
                  = Truthy (build_metadata U mi (batch_title base fmt n (k + j)) author ct cs cp))"
  using assms
proof (induction ids arbitrary: k db c)
  case Nil
  then show ?case by simp
next
  case (Cons b ids)
  from Cons.prems(2) obtain mi where mi: "rows db b = Truthy mi" and rw: "\<not> read_only db b"
    by (auto simp: retrievable_def split: lookup.splits)
  define new where "new = build_metadata U mi (batch_title base fmt n k) author ct cs cp"
  define db1 where "db1 = db \<lparr> rows := (rows db)(b := Truthy new) \<rparr>"
  have z: "zip [k..<k + length (b # ids)] (b # ids)
             = (k, b) # zip [Suc k..<Suc k + length ids] ids"
    by (simp add: upt_conv_Cons del: upt_Suc)
  have nb: "b \<notin> set ids" and d: "distinct ids"
    using Cons.prems(1) by simp_all
  have r1: "retrievable db1 ids"
    using Cons.prems(2) nb by (auto simp: retrievable_def db1_def list_all_iff)
  from Cons.IH [OF d r1, of "Suc k" "Suc c"] obtain db' where
    run: "batch_loop U base author ct cs cp fmt n (zip [Suc k..<Suc k + length ids] ids)
            (db1, Suc c) = (db', Suc c + length ids)"
    and ro: "read_only db' = read_only db1"
    and frame: "\<forall>b. b \<notin> set ids \<longrightarrow> rows db' b = rows db1 b"
    and eff: "\<forall>j<length ids. \<forall>mi. rows db1 (ids ! j) = Truthy mi \<longrightarrow>
                rows db' (ids ! j)
                  = Truthy (build_metadata U mi (batch_title base fmt n (Suc k + j))
                      author ct cs cp)"
    by blast
  have step: "batch_loop U base author ct cs cp fmt n (zip [k..<k + length (b # ids)] (b # ids))
                (db, c) = (db', c + length (b # ids))"
    unfolding z using mi rw run by (simp add: set_metadata_def db1_def new_def)
  have "read_only db' = read_only db"
    using ro by (simp add: db1_def)
  moreover have "\<forall>x. x \<notin> set (b # ids) \<longrightarrow> rows db' x = rows db x"
    using frame by (simp add: db1_def)
  moreover have "\<forall>j<length (b # ids). \<forall>m. rows db ((b # ids) ! j) = Truthy m \<longrightarrow>
                   rows db' ((b # ids) ! j)
                     = Truthy (build_metadata U m (batch_title base fmt n (k + j)) author ct cs cp)"
  proof (intro allI impI)
    fix j m
    assume j: "j < length (b # ids)" and m: "rows db ((b # ids) ! j) = Truthy m"
    show "rows db' ((b # ids) ! j)
            = Truthy (build_metadata U m (batch_title base fmt n (k + j)) author ct cs cp)"
    proof (cases j)
      case 0
      with m mi have "m = mi" by simp
      moreover have "rows db' b = Truthy new"
        using frame nb by (simp add: db1_def)
      ultimately show ?thesis using 0 by (simp add: new_def)
    next
      case (Suc j')
      with j have j': "j' < length ids" by simp
      then have "ids ! j' \<noteq> b" using nb by (metis nth_mem)
      with m Suc have "rows db1 (ids ! j') = Truthy m" by (simp add: db1_def)
      with eff j' show ?thesis using Suc by simp
    qed
  qed
  ultimately show ?case using step by blast
qed

lemma enumerate1_upt: "enumerate1 xs = zip [Suc 0..<Suc 0 + length xs] xs"
  by (simp add: enumerate1_def del: upt_Suc)

lemma batch_update_effect:
  assumes "distinct ids" and "retrievable db ids"
  shows "snd (batch_update_metadata U db ids base author ct cs cp fmt) = length ids"
    and "\<And>j mi. j < length ids \<Longrightarrow> rows db (ids ! j) = Truthy mi \<Longrightarrow>
           rows (fst (batch_update_metadata U db ids base author ct cs cp fmt)) (ids ! j)
             = Truthy (build_metadata U mi (batch_title base fmt (length ids) (Suc j))
                 author ct cs cp)"
proof -
  from batch_loop_effect [OF assms, of U base author ct cs cp fmt "length ids" "Suc 0" 0]
  obtain db' where
    run: "batch_update_metadata U db ids base author ct cs cp fmt = (db', length ids)"
    and eff: "\<forall>j<length ids. \<forall>mi. rows db (ids ! j) = Truthy mi \<longrightarrow>
                rows db' (ids ! j)
                  = Truthy (build_metadata U mi (batch_title base fmt (length ids) (Suc 0 + j))
                      author ct cs cp)"
    unfolding batch_update_metadata_def enumerate1_upt by auto
  show "snd (batch_update_metadata U db ids base author ct cs cp fmt) = length ids"
    using run by simp
  show "\<And>j mi. j < length ids \<Longrightarrow> rows db (ids ! j) = Truthy mi \<Longrightarrow>
           rows (fst (batch_update_metadata U db ids base author ct cs cp fmt)) (ids ! j)
             = Truthy (build_metadata U mi (batch_title base fmt (length ids) (Suc j))
                 author ct cs cp)"
    using run eff by simp
qed

lemma batch_written_titles:
  assumes "distinct ids" and "retrievable db ids"
  shows "written_titles (fst (batch_update_metadata U db ids base author ct cs cp fmt)) ids
           = map (batch_title base fmt (length ids)) [1..<Suc (length ids)]"
proof (rule nth_equalityI)
  show "length (written_titles (fst (batch_update_metadata U db ids base author ct cs cp fmt)) ids)
          = length (map (batch_title base fmt (length ids)) [1..<Suc (length ids)])"
    by (simp add: written_titles_def del: upt_Suc)
next
  fix j
  assume "j < length (written_titles
                (fst (batch_update_metadata U db ids base author ct cs cp fmt)) ids)"
  then have j: "j < length ids" by (simp add: written_titles_def)
  with retrievableD [OF assms(2), of "ids ! j"] obtain mi where "rows db (ids ! j) = Truthy mi"
    by auto
  from batch_update_effect(2) [OF assms j this, of U base author ct cs cp fmt] j
  show "written_titles (fst (batch_update_metadata U db ids base author ct cs cp fmt)) ids ! j
          = map (batch_title base fmt (length ids)) [1..<Suc (length ids)] ! j"
    by (simp add: written_titles_def nth_upt del: upt_Suc)
qed

lemma collect_books_data_ids:
  "extractable U db ids \<Longrightarrow> map bd_id (collect_books_data U db ids) = ids"
  by (induction ids) (auto simp: extractable_def split: lookup.splits sum.splits)

lemma preview_new_titles:
  assumes "extractable U db ids"
  shows "map p_new_title (preview_metadata_changes U db ids base author fmt)
           = map (preview_title base fmt (length ids)) [1..<Suc (length ids)]"
proof -
  have len: "length (collect_books_data U db ids) = length ids"
    using collect_books_data_ids [OF assms] by (metis length_map)
  have "map p_new_title (preview_metadata_changes U db ids base author fmt)
          = map (preview_title base fmt (length ids) \<circ> fst)
              (zip [1..<Suc (length ids)] (collect_books_data U db ids))"
    by (simp add: preview_metadata_changes_def enumerate1_def Let_def len case_prod_unfold comp_def
             del: upt_Suc)
  also have "\<dots> = map (preview_title base fmt (length ids)) [1..<Suc (length ids)]"
    using len by (simp add: map_fst_zip del: upt_Suc flip: map_map)
  finally show ?thesis .
qed

subsection \<open>The width of the numeric suffix\<close>

lemma ceil_log10_bounds:
  "1 \<le> n \<Longrightarrow> n \<le> 10 ^ ceil_log10 n \<and> (0 < ceil_log10 n \<longrightarrow> 10 ^ (ceil_log10 n - 1) < n)"
proof (induction n rule: ceil_log10.induct)
  case (1 n)
  show ?case
  proof (cases "n \<le> 1")
    case True
    then have "ceil_log10 n = 0" by (simp add: ceil_log10.simps [of n])
    with "1.prems" True show ?thesis by simp
  next
    case False
    define m where "m = (n + 9) div 10"
    define d where "d = ceil_log10 m"
    have m1: "1 \<le> m" using False unfolding m_def by linarith
    have lo: "n \<le> 10 * m" and hi: "10 * m \<le> n + 9" unfolding m_def by linarith+
    from "1.IH" [OF False] m1 have ih: "m \<le> 10 ^ d" "0 < d \<longrightarrow> 10 ^ (d - 1) < m"
      by (simp_all add: m_def d_def)
    have c: "ceil_log10 n = Suc d"
      using False by (simp add: ceil_log10.simps [of n] m_def d_def)
    have "10 * m \<le> 10 * 10 ^ d" using ih(1) by simp
    with lo have up: "n \<le> 10 ^ Suc d" by simp
    have "10 ^ d < n"
    proof (cases d)
      case 0
      then show ?thesis using False by simp
    next
      case (Suc d')
      with ih(2) have "10 ^ d' + 1 \<le> m" by simp
      then have "10 * (10 ^ d' + 1) \<le> 10 * m" by (rule mult_le_mono2)
      with hi have "10 * 10 ^ d' < n" by simp
      with Suc show ?thesis by simp
    qed
    with up show ?thesis by (simp add: c)
  qed
qed

lemma ceil_log10_real: "1 \<le> n \<Longrightarrow> \<lceil>log 10 (real n)\<rceil> = int (ceil_log10 n)"
proof (rule ceiling_unique)
  assume n: "1 \<le> n"
  from ceil_log10_bounds [OF n] have up: "n \<le> 10 ^ ceil_log10 n"
    and lo: "0 < ceil_log10 n \<longrightarrow> 10 ^ (ceil_log10 n - 1) < n" by simp_all
  from up have "real n \<le> 10 ^ ceil_log10 n"
    by (metis of_nat_le_iff of_nat_numeral of_nat_power)
  then have "log 10 (real n) \<le> real (ceil_log10 n)"
    using n by (intro log_of_power_le) simp_all
  then show "log 10 (real n) \<le> of_int (int (ceil_log10 n))" by simp
  show "of_int (int (ceil_log10 n)) - 1 < log 10 (real n)"
  proof (cases "ceil_log10 n")
    case 0
    have "0 \<le> log 10 (real n)" using n by simp
    with 0 show ?thesis by simp
  next
    case (Suc d)
    with lo have "10 ^ d < n" by simp
    then have "(10::real) ^ d < real n"
      by (metis of_nat_less_iff of_nat_numeral of_nat_power)
    then have "real d < log 10 (real n)"
      by (intro less_log_of_power) simp_all
    with Suc show ?thesis by simp
  qed
qed

lemma ceil_log10_eqI: "10 ^ k < n \<Longrightarrow> n \<le> 10 ^ Suc k \<Longrightarrow> ceil_log10 n = Suc k"
proof -
  assume lo: "10 ^ k < n" and up: "n \<le> 10 ^ Suc k"
  have "(1::nat) \<le> 10 ^ k" by simp
  with lo have n: "1 \<le> n" by linarith
  define d where "d = ceil_log10 n"
  from ceil_log10_bounds [OF n] have b: "n \<le> 10 ^ d" "0 < d \<longrightarrow> 10 ^ (d - 1) < n"
    by (simp_all add: d_def)
  from lo b(1) have "(10::nat) ^ k < 10 ^ d" by (rule less_le_trans)
  then have kd: "k < d" by simp
  with b(2) have "10 ^ (d - 1) < n" by simp
  from this up have "(10::nat) ^ (d - 1) < 10 ^ Suc k" by (rule less_le_trans)
  then have "d - 1 < Suc k" by (rule power_less_imp_less_exp [rotated]) simp
  with kd show "ceil_log10 n = Suc k" by (simp add: d_def)
qed

lemma digits_agree_below_1000:
  "0 < n \<Longrightarrow> n < 1000 \<Longrightarrow> preview_digits n = batch_digits n"
  using ceil_log10_eqI [of 0 "n + 1"] ceil_log10_eqI [of 1 "n + 1"] ceil_log10_eqI [of 2 "n + 1"]
  by (auto simp: preview_digits_def batch_digits_def)

subsection \<open>Numeric suffixes for 3 and for 12 books\<close>

lemma retrievable_uniform: "retrievable uniform_db ids"
  by (simp add: retrievable_def uniform_db_def book_def list_all_iff)

lemma extract_T: "extract_volume_with_context std (ascii ''T'') = Inr (ascii ''T'', None)"
  by code_simp

lemma extractable_uniform: "extractable std uniform_db ids"
  by (simp add: extractable_def uniform_db_def book_def book_md_def list_all_iff extract_T
        Metadata_def)

lemma series_db_ok:
  "distinct [1, 2, 3 :: int]" "retrievable series_db [1, 2, 3]" "extractable std series_db [1, 2, 3]"
  by code_simp+

lemma pads_3: "map (zero_pad 1) [1..<Suc 3] = map ascii [''1'', ''2'', ''3'']"
  by code_simp

lemma pads_12:
  "map (zero_pad 2) [1..<Suc 12]
     = map ascii [''01'', ''02'', ''03'', ''04'', ''05'', ''06'', ''07'', ''08'', ''09'', ''10'',
                  ''11'', ''12'']"
  by code_simp

lemma digits_3_12:
  "batch_digits 3 = 1" "batch_digits 12 = 2" "preview_digits 3 = 1" "preview_digits 12 = 2"
  by code_simp+

lemma numeric_batch_titles:
  "fmt \<noteq> ''chinese'' \<Longrightarrow>
   map (batch_title base fmt n) is = map ((@) base) (map (zero_pad (batch_digits n)) is)"
  by (simp add: batch_title_def)

lemma numeric_preview_titles:
  "fmt \<noteq> ''chinese'' \<Longrightarrow>
   map (preview_title base fmt n) is = map ((@) base) (map (zero_pad (preview_digits n)) is)"
  by (simp add: preview_title_def)

text \<open>
  Claim C1, as the code has it. For a batch of 3 books that the host can retrieve, with
  any numbering style other than \<open>chinese\<close>, \<open>batch_update_metadata\<close> writes and
  \<open>preview_metadata_changes\<close> shows the base title followed by \<open>1\<close>, \<open>2\<close>, \<open>3\<close>: the
  width is one digit when the batch has fewer than 10 books. For a batch of 12 books
  both give the two-digit suffixes \<open>01\<close> to \<open>12\<close>.
\<close>

theorem numeric_suffixes:
  "distinct ids \<Longrightarrow> retrievable db ids \<Longrightarrow> extractable U db ids \<Longrightarrow> fmt \<noteq> ''chinese'' \<Longrightarrow>
   (length ids = 3 \<longrightarrow>
      written_titles (fst (batch_update_metadata U db ids base author ct cs cp fmt)) ids
        = map (\<lambda>s. base @ ascii s) [''1'', ''2'', ''3''] \<and>
      map p_new_title (preview_metadata_changes U db ids base author fmt)
        = map (\<lambda>s. base @ ascii s) [''1'', ''2'', ''3'']) \<and>
   (length ids = 12 \<longrightarrow>
      written_titles (fst (batch_update_metadata U db ids base author ct cs cp fmt)) ids
        = map (\<lambda>s. base @ ascii s)
            [''01'', ''02'', ''03'', ''04'', ''05'', ''06'', ''07'', ''08'', ''09'', ''10'',
             ''11'', ''12''] \<and>
      map p_new_title (preview_metadata_changes U db ids base author fmt)
        = map (\<lambda>s. base @ ascii s)
            [''01'', ''02'', ''03'', ''04'', ''05'', ''06'', ''07'', ''08'', ''09'', ''10'',
             ''11'', ''12''])"
proof -
  assume d: "distinct ids" and r: "retrievable db ids" and e: "extractable U db ids"
    and f: "fmt \<noteq> ''chinese''"
  have b: "written_titles (fst (batch_update_metadata U db ids base author ct cs cp fmt)) ids
             = map ((@) base) (map (zero_pad (batch_digits (length ids))) [1..<Suc (length ids)])"
    by (simp only: batch_written_titles [OF d r] numeric_batch_titles [OF f])
  have p: "map p_new_title (preview_metadata_changes U db ids base author fmt)
             = map ((@) base) (map (zero_pad (preview_digits (length ids))) [1..<Suc (length ids)])"
    by (simp only: preview_new_titles [OF e] numeric_preview_titles [OF f])
  show ?thesis
  proof (intro conjI impI)
    assume "length ids = 3"
    then show "written_titles (fst (batch_update_metadata U db ids base author ct cs cp fmt)) ids
        = map (\<lambda>s. base @ ascii s) [''1'', ''2'', ''3'']"
      and "map p_new_title (preview_metadata_changes U db ids base author fmt)
        = map (\<lambda>s. base @ ascii s) [''1'', ''2'', ''3'']"
      using b p by (simp_all only: digits_3_12 pads_3 map_map comp_def)
  next
    assume "length ids = 12"
    then show "written_titles (fst (batch_update_metadata U db ids base author ct cs cp fmt)) ids
        = map (\<lambda>s. base @ ascii s)
            [''01'', ''02'', ''03'', ''04'', ''05'', ''06'', ''07'', ''08'', ''09'', ''10'',
             ''11'', ''12'']"
      and "map p_new_title (preview_metadata_changes U db ids base author fmt)
        = map (\<lambda>s. base @ ascii s)
            [''01'', ''02'', ''03'', ''04'', ''05'', ''06'', ''07'', ''08'', ''09'', ''10'',
             ''11'', ''12'']"
      using b p by (simp_all only: digits_3_12 pads_12 map_map comp_def)
  qed
qed

text \<open>
  The theorem on the library of three volumes, written by the batch, and on twelve
  books of the uniform library, shown by the preview.
\<close>

theorem numeric_suffixes_witness:
  "distinct [1, 2, 3 :: int] \<and> retrievable series_db [1, 2, 3] \<and>
   extractable std series_db [1, 2, 3] \<and> ''number'' \<noteq> ''chinese'' \<and>
   length [1, 2, 3 :: int] = 3 \<and>
   written_titles
     (fst (batch_update_metadata std series_db [1, 2, 3] (ascii ''B'') [] True True True ''number''))
     [1, 2, 3] = map (\<lambda>s. ascii ''B'' @ ascii s) [''1'', ''2'', ''3''] \<and>
   distinct [1..12] \<and> retrievable uniform_db [1..12] \<and> extractable std uniform_db [1..12] \<and>
   length [1..12] = 12 \<and>
   map p_new_title (preview_metadata_changes std uniform_db [1..12] (ascii ''B'') [] ''number'')
     = map (\<lambda>s. ascii ''B'' @ ascii s)
         [''01'', ''02'', ''03'', ''04'', ''05'', ''06'', ''07'', ''08'', ''09'', ''10'',
          ''11'', ''12'']"
proof -
  have f: "''number'' \<noteq> ''chinese''" by simp
  have d: "distinct [1..12]" and l: "length [1..12] = 12" by simp_all
  show ?thesis
    using numeric_suffixes [OF series_db_ok f, of "ascii ''B''" "[]" True True True]
      numeric_suffixes [OF d retrievable_uniform extractable_uniform f,
        of "ascii ''B''" "[]" True True True]
      series_db_ok f d l retrievable_uniform extractable_uniform
    by simp
qed

text \<open>
  The claim as the specification words it, with the suffixes \<open>01\<close>, \<open>02\<close>, \<open>03\<close> for three
  books, fails on the library of three volumes: both functions give \<open>B1\<close>, \<open>B2\<close>, \<open>B3\<close>.
\<close>

theorem numeric_suffixes_counterexample:
  "written_titles
     (fst (batch_update_metadata std series_db [1, 2, 3] (ascii ''B'') [] True True True ''number''))
     [1, 2, 3] = [ascii ''B1'', ascii ''B2'', ascii ''B3''] \<and>
   map p_new_title (preview_metadata_changes std series_db [1, 2, 3] (ascii ''B'') [] ''number'')
     = [ascii ''B1'', ascii ''B2'', ascii ''B3''] \<and>
   [ascii ''B1'', ascii ''B2'', ascii ''B3''] \<noteq> [ascii ''B01'', ascii ''B02'', ascii ''B03'']"
  by code_simp

subsection \<open>Preview against batch at 1000 books\<close>

lemma titles_at_1000:
  "batch_title (ascii ''B'') ''number'' 1000 1 = ascii ''B001''"
  "preview_title (ascii ''B'') ''number'' 1000 1 = ascii ''B0001''"
  by code_simp+

text \<open>
  Claim C2 at a batch of 1000 books of the uniform library, with the numeric style: the
  batch writes the first title with the suffix \<open>001\<close> (its width stops at 3), the
  preview shows it with \<open>0001\<close> (its width is the number of digits of 1000). By
  \<open>digits_agree_below_1000\<close> the two widths are equal for every batch of 1 to 999 books.
\<close>

theorem preview_differs_at_1000:
  "written_titles
     (fst (batch_update_metadata std uniform_db [1..1000] (ascii ''B'') [] True True True
        ''number'')) [1..1000] ! 0 = ascii ''B001'' \<and>
   map p_new_title (preview_metadata_changes std uniform_db [1..1000] (ascii ''B'') [] ''number'') ! 0
     = ascii ''B0001''"
proof -
  have d: "distinct [1..1000]" and l: "length [1..1000] = 1000" by simp_all
  have "written_titles
     (fst (batch_update_metadata std uniform_db [1..1000] (ascii ''B'') [] True True True
        ''number'')) [1..1000] ! 0 = batch_title (ascii ''B'') ''number'' 1000 1"
    by (simp only: batch_written_titles [OF d retrievable_uniform] l)
       (simp add: nth_upt del: upt_Suc)
  moreover have "map p_new_title
       (preview_metadata_changes std uniform_db [1..1000] (ascii ''B'') [] ''number'') ! 0
     = preview_title (ascii ''B'') ''number'' 1000 1"
    by (simp only: preview_new_titles [OF extractable_uniform] l)
       (simp add: nth_upt del: upt_Suc)
  ultimately show ?thesis by (simp only: titles_at_1000)
qed

subsection \<open>The clear flags\<close>

lemma series_db_first:
  "rows series_db ([1, 2, 3] ! 0)
     = Truthy ((Metadata (ascii ''X'' @ [0x7B2C, 50, 0x5377]))
                 \<lparr> tags := [ascii ''manga''], series := PStr (ascii ''S''),
                   series_index := PObj 1, publisher := PStr (ascii ''P'') \<rparr>)"
  by (simp add: series_db_def book_def book_md_def)

text \<open>
  Claim C3. For every book of a batch that the host can retrieve, the metadata that
  \<open>batch_update_metadata\<close> stores has no tags when \<open>clear_tags\<close> is true and the book's
  tags otherwise; an empty series and series index when \<open>clear_series\<close> is true and the
  book's otherwise; but the book's own publisher when \<open>clear_publisher\<close> is true, and
  the empty string when it is false: the publisher flag has the opposite polarity.
\<close>

theorem clear_flags:
  "distinct ids \<Longrightarrow> retrievable db ids \<Longrightarrow> j < length ids \<Longrightarrow> rows db (ids ! j) = Truthy mi \<Longrightarrow>
   (\<exists>new_mi.
      rows (fst (batch_update_metadata U db ids base author clear_tags clear_series
                   clear_publisher fmt)) (ids ! j) = Truthy new_mi \<and>
      tags new_mi = (if clear_tags then [] else tags mi) \<and>
      series new_mi = (if clear_series then PStr [] else series mi) \<and>
      series_index new_mi = (if clear_series then PStr [] else series_index mi) \<and>
      publisher new_mi = (if clear_publisher then publisher mi else PStr []))"
proof -
  assume "distinct ids" and "retrievable db ids" and "j < length ids"
    and "rows db (ids ! j) = Truthy mi"
  from batch_update_effect(2) [OF this]
  show ?thesis
    by (simp add: build_metadata_def Metadata_def Let_def split: option.splits)
qed

text \<open>
  The first book of the library of three volumes, with all three flags true: the tags
  and the series are emptied, the publisher \<open>P\<close> stays.
\<close>

theorem clear_flags_witness:
  "distinct [1, 2, 3 :: int] \<and> retrievable series_db [1, 2, 3] \<and> 0 < length [1, 2, 3 :: int] \<and>
   rows series_db ([1, 2, 3] ! 0)
     = Truthy ((Metadata (ascii ''X'' @ [0x7B2C, 50, 0x5377]))
                 \<lparr> tags := [ascii ''manga''], series := PStr (ascii ''S''),
                   series_index := PObj 1, publisher := PStr (ascii ''P'') \<rparr>) \<and>
   (\<exists>new_mi.
      rows (fst (batch_update_metadata std series_db [1, 2, 3] (ascii ''B'') [] True True True
                   ''number'')) ([1, 2, 3] ! 0) = Truthy new_mi \<and>
      tags new_mi = [] \<and> series new_mi = PStr [] \<and> series_index new_mi = PStr [] \<and>
      publisher new_mi = PStr (ascii ''P''))"
proof -
  have l: "0 < length [1, 2, 3 :: int]" by simp
  show ?thesis
    using clear_flags [OF series_db_ok(1,2) l series_db_first,
        of std "ascii ''B''" "[]" True True True "''number''"]
      series_db_ok(1,2) series_db_first
    by (simp add: Metadata_def)
qed

section \<open>Properties of the volume extractor\<close>

subsection \<open>Prefixes\<close>

lemma prefix_rstrip_where: "prefix (rstrip_where P s) s"
proof -
  have "suffix (dropWhile P (rev s)) (rev s)" by (rule suffix_dropWhile)
  then show ?thesis by (simp add: rstrip_where_def suffix_to_prefix)
qed

lemma prefix_base_title_of: "prefix (base_title_of t m) t"
  unfolding base_title_of_def
  by (rule prefix_order.trans [OF prefix_rstrip_where take_is_prefix])

lemma set_strip: "set (strip U s) \<subseteq> set s"
proof -
  have "set (rstrip_where P xs) \<subseteq> set xs" for P xs
    using prefix_rstrip_where [of P xs] by (rule set_mono_prefix)
  moreover have "set (dropWhile (isspace U) s) \<subseteq> set s"
    by (auto dest: set_dropWhileD)
  ultimately show ?thesis unfolding strip_def by blast
qed

subsection \<open>What a match captures\<close>

lemma m_plus_mem:
  "b \<in> set (m_plus P s a) \<Longrightarrow> \<exists>k. b = a + k \<and> 1 \<le> k \<and> k \<le> length (takeWhile P (drop a s))"
  by (auto simp: m_plus_def)

lemma take_takeWhile_all:
  "k \<le> length (takeWhile P xs) \<Longrightarrow> list_all P (take k xs) \<and> length (take k xs) = k"
proof -
  assume k: "k \<le> length (takeWhile P xs)"
  have "take k (takeWhile P xs @ dropWhile P xs)
          = take k (takeWhile P xs) @ take (k - length (takeWhile P xs)) (dropWhile P xs)"
    by (rule take_append)
  then have "take k xs
          = take k (takeWhile P xs) @ take (k - length (takeWhile P xs)) (dropWhile P xs)"
    by (simp only: takeWhile_dropWhile_id)
  with k have e: "take k xs = take k (takeWhile P xs)" by simp
  have "set (take k (takeWhile P xs)) \<subseteq> set (takeWhile P xs)" by (rule set_take_subset)
  then have "list_all P (take k (takeWhile P xs))"
    by (auto simp: list_all_iff dest: set_takeWhileD)
  with e k show ?thesis by simp
qed

lemma match_at_group:
  assumes "match_at (before, m_plus P, after) s i = Some mo"
  shows "m_start mo = i \<and> group1 mo \<noteq> [] \<and> list_all P (group1 mo) \<and>
         length (group1 mo) \<le> length s"
proof -
  define cands where
    "cands = concat (map (\<lambda>a. concat (map (\<lambda>b. map (\<lambda>e. (a, b)) (after s b)) (m_plus P s a)))
                      (before s i))"
  from assms obtain a b rest where c: "cands = (a, b) # rest"
    and mo: "mo = \<lparr> m_start = i, group1 = take (b - a) (drop a s) \<rparr>"
    by (auto simp: match_at_def cands_def split: list.splits)
  have "(a, b) \<in> set cands" using c by simp
  then have "b \<in> set (m_plus P s a)" by (auto simp: cands_def)
  then obtain k where k: "b = a + k" "1 \<le> k" "k \<le> length (takeWhile P (drop a s))"
    using m_plus_mem by blast
  have "length (take (b - a) (drop a s)) \<le> length s" by simp
  with take_takeWhile_all [OF k(3)] k(1,2) mo show ?thesis by auto
qed

lemma first_match_Some:
  "first_match f is = Some m \<Longrightarrow> \<exists>i\<in>set is. f i = Some m"
  by (induction "is") (auto split: option.splits)

lemma first_match_None:
  "first_match f is = None \<longleftrightarrow> (\<forall>i\<in>set is. f i = None)"
  by (induction "is") (auto split: option.splits)

lemma re_search_group:
  assumes "re_search (before, m_plus P, after) s = Some mo"
  shows "m_start mo \<le> length s \<and> group1 mo \<noteq> [] \<and> list_all P (group1 mo) \<and>
         length (group1 mo) \<le> length s"
proof -
  from assms obtain i where "i \<in> set [0..<Suc (length s)]"
    and "match_at (before, m_plus P, after) s i = Some mo"
    unfolding re_search_def by (blast dest: first_match_Some)
  with match_at_group [of before P after s i mo] show ?thesis by auto
qed

subsection \<open>Parsing a captured numeral\<close>

lemma int_loop_ok:
  "list_all (\<lambda>c. decimal U c \<noteq> None) s \<Longrightarrow> 0 \<le> acc \<Longrightarrow>
   \<exists>n. int_loop U s acc = Inr n \<and> 0 \<le> n"
  by (induction s arbitrary: acc) auto

lemma int_loop_nonneg: "int_loop U s acc = Inr n \<Longrightarrow> 0 \<le> acc \<Longrightarrow> 0 \<le> n"
  by (induction s arbitrary: acc) (auto split: option.splits)

lemma within_limit_shorter:
  "within_limit U t \<Longrightarrow> length s \<le> length t \<Longrightarrow> within_limit U s"
  by (auto simp: within_limit_def)

lemma py_int_ok:
  "list_all (\<lambda>c. decimal U c \<noteq> None) s \<Longrightarrow> within_limit U s \<Longrightarrow> \<exists>n. py_int U s = Inr n"
  using int_loop_ok [of U s 0] by (auto simp: py_int_def)

lemma length_rstrip_where: "length (rstrip_where P s) \<le> length s"
  by (simp add: rstrip_where_def length_dropWhile_le [of P "rev s", simplified])

lemma length_strip: "length (strip U s) \<le> length s"
  unfolding strip_def
  by (rule order_trans [OF length_rstrip_where length_dropWhile_le])

lemma parse_volume_number_not_None:
  "s \<noteq> [] \<Longrightarrow> parse_volume_number U s \<noteq> Inr None"
  by (cases "py_int U (strip U s)")
     (auto simp: parse_volume_number_def Let_def split: option.splits)

lemma parse_volume_number_ok:
  assumes "s \<noteq> []" and "\<forall>c\<in>set s. isdigit U c \<longrightarrow> decimal U c \<noteq> None"
    and "within_limit U s"
  shows "\<exists>v. parse_volume_number U s = Inr (Some v)"
proof (cases "str_isdigit U (strip U s)")
  case True
  then have "list_all (isdigit U) (strip U s)" by (simp add: str_isdigit_def)
  with assms(2) set_strip [of U s] have "list_all (\<lambda>c. decimal U c \<noteq> None) (strip U s)"
    by (auto simp: list_all_iff)
  moreover have "within_limit U (strip U s)"
    using assms(3) length_strip by (rule within_limit_shorter)
  ultimately obtain n where "py_int U (strip U s) = Inr n"
    using py_int_ok by blast
  with True assms(1) show ?thesis by (simp add: parse_volume_number_def)
next
  case False
  with assms(1) show ?thesis
    by (auto simp: parse_volume_number_def Let_def split: option.splits)
qed

subsection \<open>Volumes are not negative\<close>

lemma CHINESE_NUMBERS_nonneg: "map_of CHINESE_NUMBERS k = Some v \<Longrightarrow> 0 \<le> v"
  by (auto simp: CHINESE_NUMBERS_def split: if_splits)

lemma chinese_loop_nonneg:
  "chinese_loop s (r, t, u) = (r', t', u') \<Longrightarrow> 0 \<le> r \<Longrightarrow> 0 \<le> t \<Longrightarrow> 0 \<le> r' \<and> 0 \<le> t'"
proof (induction s arbitrary: r t u)
  case Nil
  then show ?case by simp
next
  case (Cons c s)
  show ?case
  proof (cases "map_of CHINESE_NUMBERS [c]")
    case None
    with Cons.prems show ?thesis by simp
  next
    case (Some num)
    then have n: "0 \<le> num" by (rule CHINESE_NUMBERS_nonneg)
    show ?thesis
    proof (cases "10 \<le> num")
      case True
      with Some Cons.prems(1)
      have "chinese_loop s (r + (if t = 0 then 1 else t) * num, 0, num) = (r', t', u')" by simp
      moreover have "0 \<le> r + (if t = 0 then 1 else t) * num"
        using Cons.prems(2,3) n by simp
      ultimately show ?thesis using Cons.IH by blast
    next
      case False
      with Some Cons.prems(1) have "chinese_loop s (r, num, u) = (r', t', u')" by simp
      with Cons.IH Cons.prems(2) n show ?thesis by blast
    qed
  qed
qed

lemma chinese_to_int_nonneg: "0 \<le> chinese_to_int s"
proof (cases "s = []")
  case True
  then show ?thesis by (simp add: chinese_to_int_def)
next
  case False
  obtain r t u where l: "chinese_loop s (0, 0, 1) = (r, t, u)" by (cases "chinese_loop s (0, 0, 1)")
  from chinese_loop_nonneg [OF l] have "0 \<le> r + t" by simp
  with False l show ?thesis
    by (auto simp: chinese_to_int_def split: option.splits dest: CHINESE_NUMBERS_nonneg)
qed

lemma roman_value: "(case map_of roman_dict c of None \<Rightarrow> 0 | Some v \<Rightarrow> v) \<in> roman_values"
  by (simp add: roman_dict_def roman_values_def)

lemma roman_step:
  "p \<in> roman_values \<Longrightarrow> v \<in> roman_values \<Longrightarrow> p \<le> r \<Longrightarrow>
   v \<le> (if v < p then r - v else r + v)"
  unfolding roman_values_def by auto

lemma roman_loop_nonneg:
  "roman_loop s (r, p) = (r', p') \<Longrightarrow> p \<in> roman_values \<Longrightarrow> p \<le> r \<Longrightarrow> 0 \<le> r'"
proof (induction s arbitrary: r p)
  case Nil
  then show ?case by (auto simp: roman_values_def)
next
  case (Cons c s)
  define v where "v = (case map_of roman_dict c of None \<Rightarrow> 0 | Some v \<Rightarrow> v)"
  have v: "v \<in> roman_values" unfolding v_def by (rule roman_value)
  from Cons.prems(1) have "roman_loop s (if v < p then r - v else r + v, v) = (r', p')"
    by (auto simp: v_def Let_def split: if_splits)
  from Cons.IH [OF this v roman_step [OF Cons.prems(2) v Cons.prems(3)]] show ?case .
qed

lemma roman_to_int_nonneg: "0 \<le> roman_to_int U s"
proof -
  obtain r p where l: "roman_loop (rev (str_upper U s)) (0, 0) = (r, p)"
    by (cases "roman_loop (rev (str_upper U s)) (0, 0)")
  from roman_loop_nonneg [OF l] have "0 \<le> r" by (simp add: roman_values_def)
  with l show ?thesis by (simp add: roman_to_int_def)
qed

lemma py_int_nonneg: "py_int U s = Inr n \<Longrightarrow> 0 \<le> n"
  using int_loop_nonneg [of U s 0 n] by (simp add: py_int_def split: if_splits)

lemma parse_volume_number_nonneg: "parse_volume_number U s = Inr (Some v) \<Longrightarrow> 0 \<le> v"
proof (cases "py_int U (strip U s)")
  case (Inl e)
  then show "parse_volume_number U s = Inr (Some v) \<Longrightarrow> 0 \<le> v"
    using chinese_to_int_nonneg roman_to_int_nonneg
    by (auto simp: parse_volume_number_def Let_def split: if_splits option.splits)
next
  case (Inr n)
  then show "parse_volume_number U s = Inr (Some v) \<Longrightarrow> 0 \<le> v"
    using chinese_to_int_nonneg roman_to_int_nonneg py_int_nonneg [OF Inr]
    by (auto simp: parse_volume_number_def Let_def split: if_splits option.splits)
qed

subsection \<open>The patterns capture numerals\<close>

lemma numeral_pattern1: "numeral_pattern U (pattern1 U)"
  unfolding numeral_pattern_def pattern1_def numeral_class_def by blast

lemma numeral_patterns: "p \<in> set (patterns U) \<Longrightarrow> numeral_pattern U p"
  unfolding numeral_pattern_def patterns_def numeral_class_def num_ic_def num_noroman_ic_def
  by (elim disjE | simp)+ blast+

lemma numeral_pattern3: "numeral_pattern U (pattern3 U)"
  unfolding numeral_pattern_def pattern3_def numeral_class_def by blast

lemma numeral_class_decimal:
  "digits_decimal U \<Longrightarrow> numeral_class U c \<Longrightarrow> isdigit U c \<Longrightarrow> decimal U c \<noteq> None"
  unfolding digits_decimal_def numeral_class_def is_d_def by blast

lemma numeral_group:
  assumes "numeral_pattern U p" and "re_search p t = Some mo"
  shows "group1 mo \<noteq> [] \<and> list_all (numeral_class U) (group1 mo) \<and>
         length (group1 mo) \<le> length t"
proof -
  from assms(1) obtain before P after where p: "p = (before, m_plus P, after)"
    and P: "\<forall>c. P c \<longrightarrow> numeral_class U c"
    unfolding numeral_pattern_def by blast
  from re_search_group [of before P after t mo] assms(2) p
  have "group1 mo \<noteq> []" and "list_all P (group1 mo)" and "length (group1 mo) \<le> length t"
    by simp_all
  with P show ?thesis by (auto simp: list_all_iff)
qed

subsection \<open>The results of the rules\<close>

lemma try_match_result:
  "try_match U t m = Inr (Some r) \<Longrightarrow>
   \<exists>mo v. m = Some mo \<and> r = (base_title_of t mo, Some v) \<and> 0 \<le> v"
  by (auto simp: try_match_def split: option.splits sum.splits dest: parse_volume_number_nonneg)

lemma try_patterns_result:
  "try_patterns U t ps = Inr (Some r) \<Longrightarrow>
   \<exists>p\<in>set ps. \<exists>mo v. re_search p t = Some mo \<and> r = (base_title_of t mo, Some v) \<and> 0 \<le> v"
proof (induction ps)
  case Nil
  then show ?case by simp
next
  case (Cons p ps)
  show ?case
  proof (cases "try_match U t (re_search p t)")
    case (Inl e)
    with Cons.prems show ?thesis by simp
  next
    case (Inr x)
    show ?thesis
    proof (cases x)
      case None
      with Inr Cons show ?thesis by auto
    next
      case (Some r')
      with Inr Cons.prems have "r' = r" by simp
      with Inr Some try_match_result [of U t "re_search p t" r] show ?thesis by auto
    qed
  qed
qed

lemma try_digits_result:
  "try_digits U t = Inr (Some r) \<Longrightarrow>
   \<exists>mo v. re_search (pattern3 U) t = Some mo \<and> r = (base_title_of t mo, Some v) \<and> 0 \<le> v"
  by (auto simp: try_digits_def split: option.splits sum.splits if_splits
           dest: py_int_nonneg)

lemma try_match_ok:
  assumes "digits_decimal U" and "numeral_pattern U p" and "within_limit U t"
  shows "(re_search p t = None \<longrightarrow> try_match U t (re_search p t) = Inr None) \<and>
         (\<forall>mo. re_search p t = Some mo \<longrightarrow>
            (\<exists>v. try_match U t (re_search p t) = Inr (Some (base_title_of t mo, Some v))))"
proof (intro conjI allI impI)
  assume "re_search p t = None"
  then show "try_match U t (re_search p t) = Inr None" by (simp add: try_match_def)
next
  fix mo
  assume m: "re_search p t = Some mo"
  from numeral_group [OF assms(2) m] have ne: "group1 mo \<noteq> []"
    and cl: "list_all (numeral_class U) (group1 mo)"
    and le: "length (group1 mo) \<le> length t" by simp_all
  from cl assms(1) have "\<forall>c\<in>set (group1 mo). isdigit U c \<longrightarrow> decimal U c \<noteq> None"
    by (auto simp: list_all_iff dest: numeral_class_decimal)
  from parse_volume_number_ok [OF ne this within_limit_shorter [OF assms(3) le]] obtain v where
    "parse_volume_number U (group1 mo) = Inr (Some v)" ..
  with m show "\<exists>v. try_match U t (re_search p t) = Inr (Some (base_title_of t mo, Some v))"
    by (simp add: try_match_def)
qed

lemma try_match_total:
  "digits_decimal U \<Longrightarrow> numeral_pattern U p \<Longrightarrow> within_limit U t \<Longrightarrow>
   \<exists>r. try_match U t (re_search p t) = Inr r"
  using try_match_ok [of U p t] by (cases "re_search p t") auto

lemma try_patterns_total:
  "digits_decimal U \<Longrightarrow> within_limit U t \<Longrightarrow> \<forall>p\<in>set ps. numeral_pattern U p \<Longrightarrow>
   \<exists>r. try_patterns U t ps = Inr r"
proof (induction ps)
  case Nil
  then show ?case by simp
next
  case (Cons p ps)
  from try_match_total [OF Cons.prems(1) _ Cons.prems(2), of p] Cons.prems(3)
  obtain r where "try_match U t (re_search p t) = Inr r" by auto
  with Cons show ?case by (cases r) auto
qed

lemma try_digits_total: "within_limit U t \<Longrightarrow> \<exists>r. try_digits U t = Inr r"
proof (cases "re_search (pattern3 U) t")
  case None
  then show ?thesis by (simp add: try_digits_def)
next
  case (Some mo)
  assume w: "within_limit U t"
  from Some have "list_all (is_d U) (group1 mo)" and le: "length (group1 mo) \<le> length t"
    using re_search_group [of m_empty "is_d U" m_eos t mo] by (simp_all add: pattern3_def)
  then have "list_all (\<lambda>c. decimal U c \<noteq> None) (group1 mo)"
    by (simp add: is_d_def list_all_iff)
  from py_int_ok [OF this within_limit_shorter [OF w le]] obtain n where
    "py_int U (group1 mo) = Inr n" ..
  with Some show ?thesis by (simp add: try_digits_def)
qed

lemma extract_total:
  assumes "digits_decimal U" and "within_limit U t"
  shows "\<exists>b v. extract_volume_with_context U t = Inr (b, v)"
proof -
  from try_match_total [OF assms(1) numeral_pattern1 assms(2)] obtain r1 where
    r1: "try_match U t (re_search (pattern1 U) t) = Inr r1" ..
  from try_patterns_total [OF assms] numeral_patterns obtain r2 where
    r2: "try_patterns U t (patterns U) = Inr r2" by blast
  from try_digits_total [OF assms(2)] obtain r3 where r3: "try_digits U t = Inr r3" ..
  show ?thesis
    unfolding extract_volume_with_context_def r1 r2 r3
    by (cases r1; cases r2; cases r3) auto
qed

lemma extract_result:
  assumes "extract_volume_with_context U t = Inr (b, v)"
  shows "(v = None \<and> b = t) \<or> (\<exists>mo n. v = Some n \<and> 0 \<le> n \<and> b = base_title_of t mo)"
proof -
  consider (a) r where "try_match U t (re_search (pattern1 U) t) = Inr (Some r)" "r = (b, v)"
    | (b) r where "try_patterns U t (patterns U) = Inr (Some r)" "r = (b, v)"
    | (c) r where "try_digits U t = Inr (Some r)" "r = (b, v)"
    | (d) "b = t" "v = None"
    using assms
    by (auto simp: extract_volume_with_context_def split: sum.splits option.splits)
  then show ?thesis
  proof cases
    case a
    from try_match_result [OF a(1)] a(2) show ?thesis by auto
  next
    case b
    from try_patterns_result [OF b(1)] b(2) show ?thesis by auto
  next
    case c
    from try_digits_result [OF c(1)] c(2) show ?thesis by auto
  next
    case d
    then show ?thesis by simp
  qed
qed

lemma extract_no_match:
  assumes "re_search (pattern1 U) t = None"
    and "list_all (\<lambda>p. re_search p t = None) ps"
  shows "try_patterns U t ps = Inr None"
  using assms(2) by (induction ps) (simp_all add: try_match_def)

subsection \<open>Which rule gives the result\<close>

lemma re_search_start: "re_search p s = Some mo \<Longrightarrow> m_start mo \<le> length s"
proof -
  assume "re_search p s = Some mo"
  then obtain i where i: "i \<in> set [0..<Suc (length s)]" and m: "match_at p s i = Some mo"
    unfolding re_search_def by (blast dest: first_match_Some)
  from m have "m_start mo = i"
    by (cases p) (auto simp: match_at_def split: list.splits)
  with i show ?thesis by auto
qed

lemma try_match_Some:
  assumes "numeral_pattern U p" and "re_search p t = Some mo"
  shows "try_match U t (re_search p t)
         = map_sum id (\<lambda>v. Some (base_title_of t mo, v)) (parse_volume_number U (group1 mo))"
proof -
  from numeral_group [OF assms] have "group1 mo \<noteq> []" by simp
  then have "parse_volume_number U (group1 mo) \<noteq> Inr None"
    by (rule parse_volume_number_not_None)
  with assms(2) show ?thesis
    by (cases "parse_volume_number U (group1 mo)") (auto simp: try_match_def)
qed

lemma try_patterns_first:
  assumes "list_all (\<lambda>q. re_search q t = None) ps"
    and "numeral_pattern U p" and "re_search p t = Some mo"
  shows "try_patterns U t (ps @ p # qs)
         = map_sum id (\<lambda>v. Some (base_title_of t mo, v)) (parse_volume_number U (group1 mo))"
  using assms(1)
proof (induction ps)
  case Nil
  from numeral_group [OF assms(2,3)] have "group1 mo \<noteq> []" by simp
  then have "parse_volume_number U (group1 mo) \<noteq> Inr None"
    by (rule parse_volume_number_not_None)
  then show ?case
    unfolding append_Nil try_patterns.simps try_match_Some [OF assms(2,3)]
    by (cases "parse_volume_number U (group1 mo)") auto
next
  case (Cons q ps)
  then show ?case by (simp add: try_match_def)
qed

lemma extract_rule1:
  assumes "re_search (pattern1 U) t = Some mo"
  shows "extract_volume_with_context U t
         = map_sum id (\<lambda>v. (base_title_of t mo, v)) (parse_volume_number U (group1 mo))"
proof -
  from numeral_group [OF numeral_pattern1 assms] have "group1 mo \<noteq> []" by simp
  then have "parse_volume_number U (group1 mo) \<noteq> Inr None"
    by (rule parse_volume_number_not_None)
  then show ?thesis
    unfolding extract_volume_with_context_def try_match_Some [OF numeral_pattern1 assms]
    by (cases "parse_volume_number U (group1 mo)") auto
qed

lemma extract_rule2:
  assumes "re_search (pattern1 U) t = None" and "i < length (patterns U)"
    and "list_all (\<lambda>q. re_search q t = None) (take i (patterns U))"
    and "re_search (patterns U ! i) t = Some mo"
  shows "extract_volume_with_context U t
         = map_sum id (\<lambda>v. (base_title_of t mo, v)) (parse_volume_number U (group1 mo))"
proof -
  have np: "numeral_pattern U (patterns U ! i)"
    using assms(2) by (intro numeral_patterns nth_mem)
  from numeral_group [OF np assms(4)] have "group1 mo \<noteq> []" by simp
  then have nn: "parse_volume_number U (group1 mo) \<noteq> Inr None"
    by (rule parse_volume_number_not_None)
  have "try_patterns U t (take i (patterns U) @ patterns U ! i # drop (Suc i) (patterns U))
        = map_sum id (\<lambda>v. Some (base_title_of t mo, v)) (parse_volume_number U (group1 mo))"
    using assms(3) np assms(4) by (rule try_patterns_first)
  then have tp: "try_patterns U t (patterns U)
        = map_sum id (\<lambda>v. Some (base_title_of t mo, v)) (parse_volume_number U (group1 mo))"
    using id_take_nth_drop [OF assms(2)] by simp
  from nn show ?thesis
    unfolding extract_volume_with_context_def tp assms(1)
    by (cases "parse_volume_number U (group1 mo)") (auto simp: try_match_def)
qed

lemma extract_rule3:
  assumes "re_search (pattern1 U) t = None"
    and "list_all (\<lambda>p. re_search p t = None) (patterns U)"
    and "re_search (pattern3 U) t = Some mo"
  shows "extract_volume_with_context U t
         = (if length (group1 mo) \<le> 4
            then map_sum id (\<lambda>n. (base_title_of t mo, Some n)) (py_int U (group1 mo))
            else Inr (t, None))"
proof -
  have "try_patterns U t (patterns U) = Inr None"
    using assms(1,2) by (rule extract_no_match)
  then show ?thesis
    unfolding extract_volume_with_context_def assms(1)
    by (cases "py_int U (group1 mo)") (auto simp: try_match_def try_digits_def assms(3))
qed

lemma extract_rule:
  assumes "extract_volume_with_context U t = Inr (b, Some n)"
  shows "\<exists>p mo. p \<in> set (pattern1 U # patterns U @ [pattern3 U]) \<and> re_search p t = Some mo \<and>
                m_start mo \<le> length t \<and> b = base_title_of t mo"
proof -
  consider (a) r where "try_match U t (re_search (pattern1 U) t) = Inr (Some r)" "r = (b, Some n)"
    | (b) r where "try_patterns U t (patterns U) = Inr (Some r)" "r = (b, Some n)"
    | (c) r where "try_digits U t = Inr (Some r)" "r = (b, Some n)"
    using assms
    by (auto simp: extract_volume_with_context_def split: sum.splits option.splits)
  then show ?thesis
  proof cases
    case a
    from try_match_result [OF a(1)] a(2) obtain mo where
      "re_search (pattern1 U) t = Some mo" "b = base_title_of t mo" by auto
    then show ?thesis using re_search_start by fastforce
  next
    case b
    from try_patterns_result [OF b(1)] b(2) obtain p mo where
      "p \<in> set (patterns U)" "re_search p t = Some mo" "b = base_title_of t mo" by auto
    then show ?thesis using re_search_start by fastforce
  next
    case c
    from try_digits_result [OF c(1)] c(2) obtain mo where
      "re_search (pattern3 U) t = Some mo" "b = base_title_of t mo" by auto
    then show ?thesis using re_search_start by fastforce
  qed
qed

subsection \<open>The simplified title\<close>

lemma digits_decimal_std: "digits_decimal std"
  by (simp add: digits_decimal_def std_def std_isdigit_def)

text \<open>
  Claim C7. Whenever \<open>extract_volume_with_context\<close> returns a simplified title \<open>b\<close> and a
  volume \<open>v\<close> for a title \<open>t\<close>, \<open>b\<close> is a prefix of \<open>t\<close> (so the characters keep their
  order): either no volume is returned and \<open>b\<close> is \<open>t\<close> itself, or a volume is returned,
  one of the patterns of the extractor matches in \<open>t\<close>, and \<open>b\<close> is the part of \<open>t\<close> before
  the start of that match, with the trailing separators stripped. The match is the one
  of the first rule that matches: the first pattern; otherwise the first pattern of
  the list that matches; otherwise the trailing digits when they are at most four. In
  the first two cases the result is the text before the match start, stripped, with
  the volume parsed from the captured numeral, or the error of the parser; in the third
  it is that text with the value of the digits. When no rule matches (no pattern is
  found, or the trailing digits are more than four), the result is the title unchanged
  with no volume. And for tables that satisfy \<open>digits_decimal\<close> the function returns for
  every title that is not longer than the interpreter's limit on decimal strings.
\<close>

theorem simplified_title_is_prefix:
  "(extract_volume_with_context U t = Inr (b, v) \<longrightarrow>
      prefix b t \<and>
      ((v = None \<and> b = t) \<or>
       (\<exists>p mo n. v = Some n \<and> p \<in> set (pattern1 U # patterns U @ [pattern3 U]) \<and>
          re_search p t = Some mo \<and> m_start mo \<le> length t \<and>
          b = rstrip_where (lit separators) (take (m_start mo) t)))) \<and>
   (re_search (pattern1 U) t = Some mo \<longrightarrow>
      extract_volume_with_context U t
        = map_sum id (\<lambda>v. (rstrip_where (lit separators) (take (m_start mo) t), v))
            (parse_volume_number U (group1 mo))) \<and>
   (re_search (pattern1 U) t = None \<and> i < length (patterns U) \<and>
    list_all (\<lambda>q. re_search q t = None) (take i (patterns U)) \<and>
    re_search (patterns U ! i) t = Some mo \<longrightarrow>
      extract_volume_with_context U t
        = map_sum id (\<lambda>v. (rstrip_where (lit separators) (take (m_start mo) t), v))
            (parse_volume_number U (group1 mo))) \<and>
   (re_search (pattern1 U) t = None \<and> list_all (\<lambda>p. re_search p t = None) (patterns U) \<and>
    re_search (pattern3 U) t = Some mo \<and> length (group1 mo) \<le> 4 \<longrightarrow>
      extract_volume_with_context U t
        = map_sum id (\<lambda>n. (rstrip_where (lit separators) (take (m_start mo) t), Some n))
            (py_int U (group1 mo))) \<and>
   (re_search (pattern1 U) t = None \<and> list_all (\<lambda>p. re_search p t = None) (patterns U) \<and>
    (\<forall>mo. re_search (pattern3 U) t = Some mo \<longrightarrow> 4 < length (group1 mo)) \<longrightarrow>
      extract_volume_with_context U t = Inr (t, None)) \<and>
   (digits_decimal U \<and> within_limit U t \<longrightarrow>
      (\<exists>b v. extract_volume_with_context U t = Inr (b, v)))"
proof (intro conjI impI)
  assume r: "extract_volume_with_context U t = Inr (b, v)"
  from extract_result [OF r] show "prefix b t"
    using prefix_base_title_of by auto
  show "(v = None \<and> b = t) \<or>
        (\<exists>p mo n. v = Some n \<and> p \<in> set (pattern1 U # patterns U @ [pattern3 U]) \<and>
           re_search p t = Some mo \<and> m_start mo \<le> length t \<and>
           b = rstrip_where (lit separators) (take (m_start mo) t))"
  proof (cases v)
    case None
    with extract_result [OF r] show ?thesis by auto
  next
    case (Some n)
    with r have "extract_volume_with_context U t = Inr (b, Some n)" by simp
    from extract_rule [OF this] Some show ?thesis
      unfolding base_title_of_def by blast
  qed
next
  assume "re_search (pattern1 U) t = Some mo"
  then show "extract_volume_with_context U t
        = map_sum id (\<lambda>v. (rstrip_where (lit separators) (take (m_start mo) t), v))
            (parse_volume_number U (group1 mo))"
    using extract_rule1 [of U t mo] by (simp only: base_title_of_def)
next
  assume "re_search (pattern1 U) t = None \<and> i < length (patterns U) \<and>
    list_all (\<lambda>q. re_search q t = None) (take i (patterns U)) \<and>
    re_search (patterns U ! i) t = Some mo"
  then show "extract_volume_with_context U t
        = map_sum id (\<lambda>v. (rstrip_where (lit separators) (take (m_start mo) t), v))
            (parse_volume_number U (group1 mo))"
    using extract_rule2 [of U t i mo] by (simp only: base_title_of_def)
next
  assume "re_search (pattern1 U) t = None \<and> list_all (\<lambda>p. re_search p t = None) (patterns U) \<and>
    re_search (pattern3 U) t = Some mo \<and> length (group1 mo) \<le> 4"
  then show "extract_volume_with_context U t
        = map_sum id (\<lambda>n. (rstrip_where (lit separators) (take (m_start mo) t), Some n))
            (py_int U (group1 mo))"
    using extract_rule3 [of U t mo] by (simp only: base_title_of_def if_True)
next
  assume a: "re_search (pattern1 U) t = None \<and>
             list_all (\<lambda>p. re_search p t = None) (patterns U) \<and>
             (\<forall>mo. re_search (pattern3 U) t = Some mo \<longrightarrow> 4 < length (group1 mo))"
  then have "try_patterns U t (patterns U) = Inr None"
    using extract_no_match by blast
  moreover from a have "try_digits U t = Inr None"
    by (auto simp: try_digits_def split: option.splits)
  ultimately show "extract_volume_with_context U t = Inr (t, None)"
    using a by (simp add: extract_volume_with_context_def try_match_def)
next
  assume "digits_decimal U \<and> within_limit U t"
  then show "\<exists>b v. extract_volume_with_context U t = Inr (b, v)"
    using extract_total by blast
qed

lemma extract_examples:
  "re_search (pattern1 std) (ascii ''X'' @ [0x7B2C, 50, 0x5377])
     = Some \<lparr> m_start = 1, group1 = ascii ''2'' \<rparr>"
  "parse_volume_number std (ascii ''2'') = Inr (Some 2)"
  "re_search (pattern1 std) (ascii ''X(3)'') = None"
  "(1::nat) < length (patterns std)"
  "list_all (\<lambda>q. re_search q (ascii ''X(3)'') = None) (take 1 (patterns std))"
  "re_search (patterns std ! 1) (ascii ''X(3)'') = Some \<lparr> m_start = 1, group1 = ascii ''3'' \<rparr>"
  "parse_volume_number std (ascii ''3'') = Inr (Some 3)"
  "re_search (pattern1 std) (ascii ''Title7'') = None"
  "list_all (\<lambda>p. re_search p (ascii ''Title7'') = None) (patterns std)"
  "re_search (pattern3 std) (ascii ''Title7'') = Some \<lparr> m_start = 5, group1 = ascii ''7'' \<rparr>"
  "py_int std (ascii ''7'') = Inr 7"
  "length (ascii ''7'') \<le> 4"
  "re_search (pattern1 std) (ascii ''X'') = None"
  "list_all (\<lambda>p. re_search p (ascii ''X'') = None) (patterns std)"
  "re_search (pattern3 std) (ascii ''X'') = None"
  "within_limit std (ascii ''X'')"
  "rstrip_where (lit separators) (take 1 (ascii ''X'' @ [0x7B2C, 50, 0x5377])) = ascii ''X''"
  "rstrip_where (lit separators) (take 1 (ascii ''X(3)'')) = ascii ''X''"
  "rstrip_where (lit separators) (take 5 (ascii ''Title7'')) = ascii ''Title''"
  by code_simp+

text \<open>
  The theorem on four titles: \<open>X\<close> followed by the ordinal mark, 2 and the volume
  keyword, where the first pattern matches at position 1 and the result is \<open>X\<close> with
  volume 2; \<open>X(3)\<close>, where the second pattern of the list is the first to match, at
  position 1, and the result is \<open>X\<close> with volume 3; \<open>Title7\<close>, where only the trailing
  digit matches, at position 5, and the result is \<open>Title\<close> with volume 7; and \<open>X\<close>, which
  no rule matches.
\<close>

theorem simplified_title_witness:
  "re_search (pattern1 std) (ascii ''X'' @ [0x7B2C, 50, 0x5377])
     = Some \<lparr> m_start = 1, group1 = ascii ''2'' \<rparr> \<and>
   extract_volume_with_context std (ascii ''X'' @ [0x7B2C, 50, 0x5377]) = Inr (ascii ''X'', Some 2) \<and>
   prefix (ascii ''X'') (ascii ''X'' @ [0x7B2C, 50, 0x5377]) \<and>
   re_search (pattern1 std) (ascii ''X(3)'') = None \<and>
   (1::nat) < length (patterns std) \<and>
   list_all (\<lambda>q. re_search q (ascii ''X(3)'') = None) (take 1 (patterns std)) \<and>
   re_search (patterns std ! 1) (ascii ''X(3)'') = Some \<lparr> m_start = 1, group1 = ascii ''3'' \<rparr> \<and>
   extract_volume_with_context std (ascii ''X(3)'') = Inr (ascii ''X'', Some 3) \<and>
   re_search (pattern1 std) (ascii ''Title7'') = None \<and>
   list_all (\<lambda>p. re_search p (ascii ''Title7'') = None) (patterns std) \<and>
   re_search (pattern3 std) (ascii ''Title7'') = Some \<lparr> m_start = 5, group1 = ascii ''7'' \<rparr> \<and>
   length (ascii ''7'') \<le> 4 \<and>
   extract_volume_with_context std (ascii ''Title7'') = Inr (ascii ''Title'', Some 7) \<and>
   re_search (pattern1 std) (ascii ''X'') = None \<and>
   list_all (\<lambda>p. re_search p (ascii ''X'') = None) (patterns std) \<and>
   re_search (pattern3 std) (ascii ''X'') = None \<and>
   extract_volume_with_context std (ascii ''X'') = Inr (ascii ''X'', None) \<and>
   digits_decimal std \<and> within_limit std (ascii ''X'')"
proof -
  have a: "extract_volume_with_context std (ascii ''X'' @ [0x7B2C, 50, 0x5377])
             = Inr (ascii ''X'', Some 2)"
    using simplified_title_is_prefix
        [where U = std and t = "ascii ''X'' @ [0x7B2C, 50, 0x5377]"
           and mo = "\<lparr> m_start = 1, group1 = ascii ''2'' \<rparr>"]
      extract_examples
    by simp
  have b: "extract_volume_with_context std (ascii ''X(3)'') = Inr (ascii ''X'', Some 3)"
    using simplified_title_is_prefix
        [where U = std and t = "ascii ''X(3)''" and i = 1
           and mo = "\<lparr> m_start = 1, group1 = ascii ''3'' \<rparr>"]
      extract_examples
    by simp
  have c: "extract_volume_with_context std (ascii ''Title7'') = Inr (ascii ''Title'', Some 7)"
    using simplified_title_is_prefix
        [where U = std and t = "ascii ''Title7''"
           and mo = "\<lparr> m_start = 5, group1 = ascii ''7'' \<rparr>"]
      extract_examples
    by simp
  have d: "extract_volume_with_context std (ascii ''X'') = Inr (ascii ''X'', None)"
    using simplified_title_is_prefix [where U = std and t = "ascii ''X''"] extract_examples
    by simp
  have e: "prefix (ascii ''X'') (ascii ''X'' @ [0x7B2C, 50, 0x5377])"
    using simplified_title_is_prefix
        [where U = std and t = "ascii ''X'' @ [0x7B2C, 50, 0x5377]" and b = "ascii ''X''"
           and v = "Some 2"] a
    by simp
  from a b c d e extract_examples digits_decimal_std show ?thesis by simp
qed

subsection \<open>Numerals that no numeral system converts\<close>

text \<open>
  \<open>chinese_to_int\<close> does not fail on a character it does not know: it stops there, and
  its result is that of the characters before. On a key of \<open>CHINESE_NUMBERS\<close> the
  loop and the table give the same value.
\<close>

lemma CHINESE_NUMBERS_loop:
  "list_all (\<lambda>(k, v). (case chinese_loop k (0, 0, 1) of (result, temp, last_unit) \<Rightarrow> result + temp) = v
                       \<and> list_all (\<lambda>c. map_of CHINESE_NUMBERS [c] \<noteq> None) k)
     CHINESE_NUMBERS"
  by code_simp

lemma chinese_to_int_loop:
  "chinese_to_int s = (case chinese_loop s (0, 0, 1) of (result, temp, last_unit) \<Rightarrow> result + temp)"
proof (cases "map_of CHINESE_NUMBERS s")
  case None
  then show ?thesis by (cases s) (auto simp: chinese_to_int_def split: prod.splits)
next
  case (Some v)
  then have "(s, v) \<in> set CHINESE_NUMBERS" by (rule map_of_SomeD)
  with CHINESE_NUMBERS_loop
  have "(case chinese_loop s (0, 0, 1) of (result, temp, last_unit) \<Rightarrow> result + temp) = v"
    by (auto simp: list_all_iff)
  with Some show ?thesis by (cases s) (auto simp: chinese_to_int_def split: prod.splits)
qed

lemma chinese_loop_stops:
  "list_all (\<lambda>x. map_of CHINESE_NUMBERS [x] \<noteq> None) xs \<Longrightarrow> map_of CHINESE_NUMBERS [c] = None \<Longrightarrow>
   chinese_loop (xs @ c # ys) st = chinese_loop xs st"
proof (induction xs arbitrary: st)
  case Nil
  then show ?case by (cases st) simp
next
  case (Cons x xs)
  then show ?case by (cases st) (auto split: option.splits)
qed

lemma chinese_to_int_stops:
  "list_all (\<lambda>x. map_of CHINESE_NUMBERS [x] \<noteq> None) xs \<Longrightarrow> map_of CHINESE_NUMBERS [c] = None \<Longrightarrow>
   chinese_to_int (xs @ c # ys) = chinese_to_int xs"
  by (simp only: chinese_to_int_loop chinese_loop_stops)

lemma parse_volume_number_chinese:
  "s \<noteq> [] \<Longrightarrow> \<not> str_isdigit U (strip U s) \<Longrightarrow> roman_match (str_upper U (strip U s)) = None \<Longrightarrow>
   parse_volume_number U s = Inr (Some (chinese_to_int (strip U s)))"
  by (simp add: parse_volume_number_def)

text \<open>
  Claim C6 on the title \<open>Avatar 3D\<close>. The first pattern does not match; the first
  pattern of the list matches the separator and the candidate \<open>3D\<close>, at position 6. No
  numeral system converts \<open>3D\<close>: it is not all digits and \<open>int\<close> refuses it, it is no
  Roman numeral, and its first character is no Chinese numeral. Yet
  \<open>parse_volume_number\<close> returns 0, not \<open>None\<close>, and the extractor returns \<open>Avatar\<close> with
  the volume 0 instead of the title unchanged with no volume. The same happens to the
  candidate \<open>1X\<close> that the first pattern captures in the title \<open>A\<close>, ordinal mark, \<open>1X\<close>,
  volume keyword.
\<close>

theorem unconvertible_numeral_gets_volume_0:
  "re_search (pattern1 std) (ascii ''Avatar 3D'') = None \<and>
   re_search (patterns std ! 0) (ascii ''Avatar 3D'')
     = Some \<lparr> m_start = 6, group1 = ascii ''3D'' \<rparr> \<and>
   \<not> str_isdigit std (ascii ''3D'') \<and>
   py_int std (ascii ''3D'') = Inl ValueError \<and>
   roman_match (str_upper std (ascii ''3D'')) = None \<and>
   map_of CHINESE_NUMBERS (ascii ''3'') = None \<and>
   parse_volume_number std (ascii ''3D'') = Inr (Some 0) \<and>
   extract_volume_with_context std (ascii ''Avatar 3D'') = Inr (ascii ''Avatar'', Some 0) \<and>
   re_search (pattern1 std) (ascii ''A'' @ [0x7B2C] @ ascii ''1X'' @ [0x5377])
     = Some \<lparr> m_start = 1, group1 = ascii ''1X'' \<rparr> \<and>
   \<not> str_isdigit std (ascii ''1X'') \<and>
   py_int std (ascii ''1X'') = Inl ValueError \<and>
   roman_match (str_upper std (ascii ''1X'')) = None \<and>
   map_of CHINESE_NUMBERS (ascii ''1'') = None \<and>
   parse_volume_number std (ascii ''1X'') = Inr (Some 0) \<and>
   extract_volume_with_context std (ascii ''A'' @ [0x7B2C] @ ascii ''1X'' @ [0x5377])
     = Inr (ascii ''A'', Some 0)"
  by code_simp

section \<open>Determinism of the base title\<close>

text \<open>
  Claim C9 on the titles \<open>ab ef\<close> and \<open>ef ab\<close>. Neither title has a volume marker, the
  common prefix is empty and the longest common subsequence has two characters, so the
  base title comes from \<open>find_common_words\<close>. The two common words have the same length,
  and their order in the result is the order in which the set is iterated: with \<open>ab\<close>
  first the base title is \<open>ab ef\<close>, with \<open>ef\<close> first it is \<open>ef ab\<close>.
\<close>

theorem base_title_depends_on_set_order:
  "extract_base_title std (\<lambda>w. if w = ascii ''ab'' then 0 else 1) [ascii ''ab ef'', ascii ''ef ab'']
     = Inr (ascii ''ab ef'') \<and>
   extract_base_title std (\<lambda>w. if w = ascii ''ab'' then 1 else 0) [ascii ''ab ef'', ascii ''ef ab'']
     = Inr (ascii ''ef ab'')"
  by code_simp

section \<open>Properties of the volume sorter\<close>

lemma books_with_volume_all:
  "\<forall>b\<in>set ids. rows db b \<noteq> Falsy \<Longrightarrow>
   books_with_volume U db ids
     = map (\<lambda>b. (b, case rows db b of
                       Truthy mi \<Rightarrow>
                         (case extract_volume_with_context U (title mi) of
                            Inr (s, Some v) \<Rightarrow> v
                          | _ \<Rightarrow> 0)
                     | _ \<Rightarrow> 0)) ids"
  by (induction ids) (auto split: lookup.splits sum.splits option.splits)

lemma extract_nonneg: "extract_volume_with_context U t = Inr (b, Some v) \<Longrightarrow> 0 \<le> v"
  using extract_result [of U t b "Some v"] by auto

lemma books_with_volume_nonneg: "\<forall>p\<in>set (books_with_volume U db ids). 0 \<le> snd p"
  by (induction ids)
     (auto split: lookup.splits sum.splits option.splits dest: extract_nonneg)

lemma series_db_sorted:
  "detect_and_sort_books_by_volume std series_db [1, 2, 3] = [(3, 0), (2, 1), (1, 2)]"
  by code_simp

lemma series_db_volumes:
  "rows series_db 1 \<noteq> Falsy" "rows series_db 2 \<noteq> Falsy" "rows series_db 3 \<noteq> Falsy"
  "books_with_volume std series_db [1, 2, 3] = [(1, 2), (2, 1), (3, 0)]"
  by code_simp+

text \<open>
  Claim C5. The list returned by \<open>detect_and_sort_books_by_volume\<close> is ascending in the
  volume; it holds the same pairs as the list collected from the books, as a multiset;
  pairs of equal volume keep their order; when no lookup gives an object that Python
  takes for false, the list has one pair for every identifier, in which the volume is
  the extracted one, or 0 when there is none or when the lookup or the extraction
  raises; and no volume is negative, so that the books without a volume come first. On
  the library of three volumes with the identifiers 1, 2, 3 the result is
  \<open>[(3, 0), (2, 1), (1, 2)]\<close>.
\<close>

theorem sort_by_volume:
  "sorted (map snd (detect_and_sort_books_by_volume U db ids)) \<and>
   mset (detect_and_sort_books_by_volume U db ids) = mset (books_with_volume U db ids) \<and>
   (\<forall>k. filter (\<lambda>p. snd p = k) (detect_and_sort_books_by_volume U db ids)
          = filter (\<lambda>p. snd p = k) (books_with_volume U db ids)) \<and>
   ((\<forall>b\<in>set ids. rows db b \<noteq> Falsy) \<longrightarrow>
      books_with_volume U db ids
        = map (\<lambda>b. (b, case rows db b of
                          Truthy mi \<Rightarrow>
                            (case extract_volume_with_context U (title mi) of
                               Inr (s, Some v) \<Rightarrow> v
                             | _ \<Rightarrow> 0)
                        | _ \<Rightarrow> 0)) ids) \<and>
   (\<forall>p\<in>set (detect_and_sort_books_by_volume U db ids). 0 \<le> snd p) \<and>
   detect_and_sort_books_by_volume std series_db [1, 2, 3] = [(3, 0), (2, 1), (1, 2)]"
  unfolding detect_and_sort_books_by_volume_def [of U]
  using books_with_volume_all [of ids db U] series_db_sorted books_with_volume_nonneg [of U db ids]
  by (simp add: sort_key_stable sorted_sort_key)

text \<open>The theorem on the library of three volumes.\<close>

theorem sort_by_volume_witness:
  "rows series_db 1 \<noteq> Falsy \<and> rows series_db 2 \<noteq> Falsy \<and> rows series_db 3 \<noteq> Falsy \<and>
   books_with_volume std series_db [1, 2, 3] = [(1, 2), (2, 1), (3, 0)] \<and>
   sorted (map snd (detect_and_sort_books_by_volume std series_db [1, 2, 3])) \<and>
   mset (detect_and_sort_books_by_volume std series_db [1, 2, 3])
     = mset [(1, 2), (2, 1), (3, 0)] \<and>
   detect_and_sort_books_by_volume std series_db [1, 2, 3] = [(3, 0), (2, 1), (1, 2)]"
  using sort_by_volume [of std series_db "[1, 2, 3]"] series_db_volumes
  by simp

section \<open>Properties of the dialog\<close>

subsection \<open>What the constructor collects\<close>











subsection \<open>The three lists run in parallel\<close>




subsection \<open>Lists of different lengths\<close>









end
